theory Spec2Isabelle
  imports Complex_Main
begin

section \<open>Python values shared by both modules\<close>

text \<open>
  The exceptions the modelled code can raise.  A raise is the \<open>Inl\<close> branch of a sum
  (for the pure metadata builder) or the error component of an outcome (for the
  functions that mutate the NWB container, where the mutations made before the raise
  stay visible to the caller).
\<close>

datatype py_error = IndexError | KeyError | ValueError | TypeError | OverflowError | AssertionError

section \<open>\<open>datainterfaces/icephys/abf/abf_neo_datainterface.py\<close>\<close>

subsection \<open>The reader, as far as the interface looks at it\<close>

text \<open>
  A Neo \<open>AxonIO\<close> reader: \<open>reader.filename\<close>, the two entries of
  \<open>reader._axon_info\<close> that are read (a missing key is \<open>None\<close> and raises
  \<open>KeyError\<close>), \<open>reader.header["nb_segment"]\<close> (one count per block) and
  \<open>reader.header["signal_channels"]\<close> (only its length is used, the channels are kept
  by name).  \<open>uFileStartDate\<close> is the integer \<open>YYYYMMDD\<close>, \<open>uFileStartTimeMS\<close> a count of
  milliseconds since midnight; both are 32-bit unsigned header fields, for which the
  float division \<open>/ 1000\<close> followed by \<open>round\<close> is exact as modelled in \<open>round_ms\<close>.
\<close>

record reader =
  filename :: string
  uFileStartDate :: "int option"
  uFileStartTimeMS :: "int option"
  nb_segment :: "int list"
  signal_channels :: "string list"

text \<open>\<open>get_number_of_electrodes\<close> and \<open>get_number_of_segments\<close> of \<open>utils/neo.py\<close>.\<close>

definition get_number_of_electrodes :: "'a reader_scheme \<Rightarrow> nat" where
  "get_number_of_electrodes neo_reader = length (signal_channels neo_reader)"

definition get_number_of_segments :: "'a reader_scheme \<Rightarrow> nat \<Rightarrow> py_error + int" where
  "get_number_of_segments neo_reader block =
     (if block < length (nb_segment neo_reader) then Inr (nb_segment neo_reader ! block)
      else Inl IndexError)"

subsection \<open>\<open>datetime.strptime(str(n), "%Y%m%d")\<close>, \<open>timedelta\<close> and their arithmetic\<close>

text \<open>Decimal digits of a natural number, most significant first, as \<open>str\<close> prints them.\<close>

function digits_of :: "nat \<Rightarrow> nat list" where
  "digits_of n = (if n < 10 then [n] else digits_of (n div 10) @ [n mod 10])"
  by pat_completeness auto
termination
  by (relation "measure id") auto

declare digits_of.simps [simp del]

text \<open>
  The month and day directives are the regular expressions
  \<open>1[0-2]|0[1-9]|[1-9]\<close> and \<open>3[01]|[12]\d|0[1-9]|[1-9]\<close>, alternatives tried in this
  order; each function returns the value read and the digits left over.
\<close>

fun read_month :: "nat list \<Rightarrow> (nat \<times> nat list) list" where
  "read_month ds =
     (case ds of
        a # b # r \<Rightarrow>
          (if a = 1 \<and> b \<le> 2 then [(10 + b, r)] else []) @
          (if a = 0 \<and> 1 \<le> b then [(b, r)] else []) @
          (if 1 \<le> a then [(a, b # r)] else [])
      | [a] \<Rightarrow> (if 1 \<le> a then [(a, [])] else [])
      | [] \<Rightarrow> [])"

fun read_day :: "nat list \<Rightarrow> (nat \<times> nat list) option" where
  "read_day ds =
     (case ds of
        a # b # r \<Rightarrow>
          (if a = 3 \<and> b \<le> 1 then Some (30 + b, r)
           else if a = 1 \<or> a = 2 then Some (10 * a + b, r)
           else if a = 0 \<and> 1 \<le> b then Some (b, r)
           else if 1 \<le> a then Some (a, b # r)
           else None)
      | [a] \<Rightarrow> (if 1 \<le> a then Some (a, []) else None)
      | [] \<Rightarrow> None)"

text \<open>
  The first month alternative after which a day can be read wins (the matcher
  backtracks over the month only when no day follows); what is left after the day is
  "unconverted data" and is reported by the caller.
\<close>

fun first_match :: "(nat \<times> nat list) list \<Rightarrow> (nat \<times> nat \<times> nat list) option" where
  "first_match [] = None"
| "first_match ((m, r) # alts) =
     (case read_day r of Some (d, r') \<Rightarrow> Some (m, d, r') | None \<Rightarrow> first_match alts)"

definition is_leap :: "int \<Rightarrow> bool" where
  "is_leap y = (y mod 4 = 0 \<and> (y mod 100 \<noteq> 0 \<or> y mod 400 = 0))"

definition days_in_month :: "int \<Rightarrow> int \<Rightarrow> int" where
  "days_in_month y m =
     (if m = 2 then (if is_leap y then 29 else 28)
      else if m = 4 \<or> m = 6 \<or> m = 9 \<or> m = 11 then 30 else 31)"

definition days_before_year :: "int \<Rightarrow> int" where
  "days_before_year y = (y - 1) * 365 + (y - 1) div 4 - (y - 1) div 100 + (y - 1) div 400"

definition days_before_month :: "int \<Rightarrow> int \<Rightarrow> int" where
  "days_before_month y m = sum_list (map (days_in_month y) [1..m - 1])"

text \<open>The proleptic Gregorian ordinal of a date; 1 is 0001-01-01.\<close>

definition ymd2ord :: "int \<Rightarrow> int \<Rightarrow> int \<Rightarrow> int" where
  "ymd2ord y m d = days_before_year y + days_before_month y m + d"

text \<open>
  A \<open>datetime\<close> at whole seconds is kept as the number of seconds since the midnight
  that starts ordinal 0.  \<open>strptime\<close> returns midnight of the date read, or raises
  \<open>ValueError\<close>: no match (also for a negative number, whose \<open>str\<close> starts with a
  sign), unconverted data, or a day that the month does not have.
\<close>

definition strptime_Ymd :: "int \<Rightarrow> py_error + int" where
  "strptime_Ymd n =
     (if n < 0 then Inl ValueError
      else let ds = digits_of (nat n) in
        if length ds < 4 then Inl ValueError
        else
          (case first_match (read_month (drop 4 ds)) of
             None \<Rightarrow> Inl ValueError
           | Some (m, d, rest) \<Rightarrow>
               let y = int (nat n div 10 ^ (length ds - 4)) in
               if rest \<noteq> [] then Inl ValueError
               else if y < 1 \<or> days_in_month y (int m) < int d then Inl ValueError
               else Inr (ymd2ord y (int m) (int d) * 86400)))"

text \<open>\<open>round(ms / 1000)\<close>: Python rounds a tie to the even neighbour.\<close>

definition round_ms :: "int \<Rightarrow> int" where
  "round_ms ms =
     (let q = ms div 1000; r = ms mod 1000
      in if r < 500 then q else if 500 < r then q + 1 else if even q then q else q + 1)"

text \<open>
  \<open>startDate + timedelta(seconds=startTime)\<close>.  The \<open>timedelta\<close> constructor raises
  \<open>OverflowError\<close> beyond 999999999 days, the sum when it leaves the years 1..9999
  (ordinals 1..3652059).
\<close>

definition add_seconds :: "int \<Rightarrow> int \<Rightarrow> py_error + int" where
  "add_seconds date secs =
     (if 999999999 < \<bar>secs div 86400\<bar> then Inl OverflowError
      else let t = date + secs in
        if t div 86400 < 1 \<or> 3652059 < t div 86400 then Inl OverflowError else Inr t)"

text \<open>
  Lines 48-52 and 94-98: the start of a file's recording, from the reader's header.
\<close>

definition file_start :: "'a reader_scheme \<Rightarrow> py_error + int" where
  "file_start r =
     (case uFileStartDate r of
        None \<Rightarrow> Inl KeyError
      | Some date \<Rightarrow>
          (case uFileStartTimeMS r of
             None \<Rightarrow> Inl KeyError
           | Some ms \<Rightarrow>
               (case strptime_Ymd date of
                  Inl e \<Rightarrow> Inl e
                | Inr startDate \<Rightarrow> add_seconds startDate (round_ms ms))))"

text \<open>
  \<open>(abfDateTime - first_session_time).seconds\<close>: the difference of two datetimes is a
  \<open>timedelta\<close> normalised to days, seconds (0..86399) and microseconds, and \<open>.seconds\<close>
  reads the middle component only.  \<open>float\<close> of it is exact, so the value is kept as
  an integer.
\<close>

definition timedelta_seconds :: "int \<Rightarrow> int \<Rightarrow> int" where
  "timedelta_seconds t t0 = (t - t0) mod 86400"

subsection \<open>The metafile and the recording entries\<close>

text \<open>An element of \<open>metafile_data["recording_sessions"]\<close>; an absent key is \<open>None\<close>.\<close>

record recording_session =
  abf_file_name :: "string option"
  session_stimulus_type :: "string option"
  session_icephys_experiment_type :: "string option"

text \<open>One element of \<open>metadata["Icephys"]["Recordings"]\<close>.\<close>

record recording_entry =
  relative_session_start_time :: int
  stimulus_type :: string
  icephys_experiment_type :: "string option"
  intracellular_recordings_table_id :: int
  simultaneous_recordings_table_id :: int
  sequential_recordings_table_id :: int

text \<open>\<open>reader.filename.split("/")[-1]\<close>: what follows the last slash.\<close>

fun last_component :: "string \<Rightarrow> string \<Rightarrow> string" where
  "last_component acc [] = acc"
| "last_component acc (c # cs) =
     (if c = CHR ''/'' then last_component [] cs else last_component (acc @ [c]) cs)"

definition get_extra_info :: "recording_session list \<Rightarrow> string \<Rightarrow> recording_session" where
  "get_extra_info metafile_sessions name =
     (case filter (\<lambda>s. (case abf_file_name s of None \<Rightarrow> [] | Some f \<Rightarrow> f) = name) metafile_sessions of
        [] \<Rightarrow> \<lparr>abf_file_name = None, session_stimulus_type = None,
               session_icephys_experiment_type = None\<rparr>
      | s # _ \<Rightarrow> s)"

subsection \<open>The three nested loops of \<open>get_metadata\<close> (lines 85-125)\<close>

text \<open>
  The loop state is the list built so far and the counters \<open>i\<close>, \<open>ii\<close>, \<open>iii\<close>.
  The innermost loop (lines 110-123) appends one entry per electrode and advances \<open>i\<close>.
\<close>

type_synonym loop_state = "recording_entry list \<times> int \<times> int \<times> int"

text \<open>The \<open>dict(...)\<close> of lines 112-121.\<close>

definition recording_dict :: "int \<Rightarrow> recording_session \<Rightarrow> int \<Rightarrow> int \<Rightarrow> int \<Rightarrow> recording_entry" where
  "recording_dict rel extra_info i ii iii =
     \<lparr>relative_session_start_time = rel,
      stimulus_type =
        (case session_stimulus_type extra_info of None \<Rightarrow> ''not described'' | Some s \<Rightarrow> s),
      icephys_experiment_type = session_icephys_experiment_type extra_info,
      intracellular_recordings_table_id = i,
      simultaneous_recordings_table_id = ii,
      sequential_recordings_table_id = iii\<rparr>"

definition electrodes_loop ::
  "int \<Rightarrow> recording_session \<Rightarrow> nat \<Rightarrow> loop_state \<Rightarrow> loop_state" where
  "electrodes_loop rel extra_info n_electrodes =
     fold (\<lambda>el (recs, i, ii, iii). (recs @ [recording_dict rel extra_info i ii iii], i + 1, ii, iii))
       [0..<n_electrodes]"

text \<open>Lines 108-124: one pass of the electrode loop per segment, then \<open>ii += 1\<close>.\<close>

definition segments_loop ::
  "int \<Rightarrow> recording_session \<Rightarrow> int \<Rightarrow> nat \<Rightarrow> loop_state \<Rightarrow> loop_state" where
  "segments_loop rel extra_info n_segments n_electrodes =
     fold (\<lambda>sg st.
        (case electrodes_loop rel extra_info n_electrodes st of
           (recs, i, ii, iii) \<Rightarrow> (recs, i, ii + 1, iii)))
       [0..<nat n_segments]"

text \<open>
  Lines 88-125: the body for one reader, then the rest of \<open>readers_list\<close>.  The start
  time of the file is computed before the segment count is read, so that is the order
  of the possible raises.
\<close>

fun readers_loop ::
  "recording_session list \<Rightarrow> int \<Rightarrow> reader list \<Rightarrow> loop_state \<Rightarrow> py_error + loop_state" where
  "readers_loop metafile_sessions first_session_time [] st = Inr st"
| "readers_loop metafile_sessions first_session_time (r # rs) st =
     (let extra_info = get_extra_info metafile_sessions (last_component [] (filename r)) in
      case file_start r of
        Inl e \<Rightarrow> Inl e
      | Inr abfDateTime \<Rightarrow>
          let rel = timedelta_seconds abfDateTime first_session_time in
          (case get_number_of_segments r 0 of
             Inl e \<Rightarrow> Inl e
           | Inr n_segments \<Rightarrow>
               (case segments_loop rel extra_info n_segments (get_number_of_electrodes r) st of
                  (recs, i, ii, iii) \<Rightarrow>
                    readers_loop metafile_sessions first_session_time rs (recs, i, ii, iii + 1))))"

text \<open>
  \<open>AbfNeoDataInterface\<close>: \<open>readers_list\<close> (one reader per entry of \<open>files_paths\<close>, built
  by the base class) and \<open>source_data["metadata_file_path"]\<close>.  The file system is the
  argument \<open>load_sessions\<close>: for a path that is a file, the \<open>recording_sessions\<close> of
  the JSON document there (the empty list when the document has no such key).
\<close>

record abf_interface =
  readers_list :: "reader list"
  metadata_file_path :: "string option"

text \<open>
  \<open>get_metadata\<close>, returning \<open>metadata["Icephys"]["Recordings"]\<close>.  \<open>Path(None)\<close>
  raises \<open>TypeError\<close>; \<open>readers_list[0]\<close> raises \<open>IndexError\<close> on an empty list.  The
  other blocks of the metadata (\<open>NWBFile\<close>, \<open>Subject\<close>, \<open>LabMetadata\<close>) are filled
  from the metafile and the first start time alone and do not enter the recordings.
\<close>

definition get_metadata ::
  "(string \<Rightarrow> recording_session list option) \<Rightarrow> abf_interface \<Rightarrow> py_error + recording_entry list" where
  "get_metadata load_sessions self =
     (case metadata_file_path self of
        None \<Rightarrow> Inl TypeError
      | Some metafile \<Rightarrow>
          let metafile_sessions = (case load_sessions metafile of None \<Rightarrow> [] | Some ss \<Rightarrow> ss) in
          (case readers_list self of
             [] \<Rightarrow> Inl IndexError
           | first_reader # _ \<Rightarrow>
               (case file_start first_reader of
                  Inl e \<Rightarrow> Inl e
                | Inr first_session_time \<Rightarrow>
                    (case readers_loop metafile_sessions first_session_time (readers_list self)
                            ([], 0, 0, 0) of
                       Inl e \<Rightarrow> Inl e
                     | Inr (recs, i, ii, iii) \<Rightarrow> Inr recs))))"

section \<open>\<open>utils/neo.py\<close>\<close>

subsection \<open>The reader, the container and the metadata\<close>

text \<open>
  The rest of the reader's interface, as \<open>add_icephys_recording\<close> uses it:
  \<open>read_raw_protocol()[0]\<close> (the command traces, one list per segment with one trace
  per command channel), \<open>get_signal_t_start(block_index=0, seg_index=si)\<close>,
  \<open>get_signal_sampling_rate()\<close> and
  \<open>get_analogsignal_chunk(block_index=0, seg_index=si, channel_indexes=ei)\<close>.  These are
  calls into the Neo library and are taken to return.  Python floats are only passed
  through, never computed with; they are kept as reals, a literal as the number it
  denotes.
\<close>

record neo_reader = reader +
  raw_protocol_traces :: "real list list list"
  signal_t_start :: "nat \<Rightarrow> real"
  signal_sampling_rate :: real
  analogsignal_chunk :: "nat \<Rightarrow> nat \<Rightarrow> real list"

text \<open>
  The \<open>pynwb.NWBFile\<close> container, as far as it is read and written here.
  \<open>nwbfile.devices\<close> and \<open>nwbfile.icephys_electrodes\<close> are dictionaries keyed by name
  that keep insertion order (the first device is read by position); an electrode holds
  a reference to its device object.  \<open>add_intracellular_recording\<close> appends one row.
\<close>

record device =
  device_name :: string
  device_description :: "string option"
  device_manufacturer :: "string option"

record icephys_electrode =
  electrode_name :: string
  electrode_description :: string
  electrode_device :: device

record patch_clamp_series =
  series_name :: string
  series_electrode :: icephys_electrode
  series_data :: "real list"
  series_starting_time :: real
  series_rate :: real
  series_gain :: real

record intracellular_recording =
  recording_electrode :: icephys_electrode
  recording_stimulus :: patch_clamp_series
  recording_response :: patch_clamp_series

record nwbfile =
  devices :: "device list"
  icephys_electrodes :: "icephys_electrode list"
  intracellular_recordings :: "intracellular_recording list"

definition device_names :: "nwbfile \<Rightarrow> string list" where
  "device_names nwb = map device_name (devices nwb)"

definition electrode_names :: "nwbfile \<Rightarrow> string list" where
  "electrode_names nwb = map electrode_name (icephys_electrodes nwb)"

text \<open>\<open>nwbfile.devices[name]\<close>; a missing key raises \<open>KeyError\<close>.\<close>

definition get_device :: "nwbfile \<Rightarrow> string \<Rightarrow> py_error + device" where
  "get_device nwb name =
     (case find (\<lambda>d. device_name d = name) (devices nwb) of
        None \<Rightarrow> Inl KeyError
      | Some d \<Rightarrow> Inr d)"

text \<open>
  The caller's metadata: a dictionary (or \<open>None\<close>) whose entries
  \<open>metadata[data_type]["Device"]\<close> are lists of device descriptions and whose entry
  \<open>metadata["Icephys"]["Electrodes"]\<close> should be a list of electrode descriptions.  A
  key that is absent from a description is \<open>None\<close>.  Python does not type the
  \<open>Electrodes\<close> entry, so it is either a value with a length, given by its elements, each
  a dictionary or not (a string or a dictionary in place of the list counts as a
  sequence of elements that are no dictionaries), or a value without a length.
\<close>

datatype data_type = Ecephys | Icephys

record device_metadata =
  md_name :: "string option"
  md_description :: "string option"
  md_manufacturer :: "string option"

record electrode_metadata =
  el_name :: "string option"
  el_description :: "string option"
  el_device_name :: "string option"

datatype electrodes_item = Mapping electrode_metadata | NotMapping

datatype electrodes_entry = Sized "electrodes_item list" | Unsized

record metadata =
  Ecephys_Device :: "device_metadata list option"
  Icephys_Device :: "device_metadata list option"
  Icephys_Electrodes :: "electrodes_entry option"

definition empty_metadata :: metadata where
  "empty_metadata = \<lparr>Ecephys_Device = None, Icephys_Device = None, Icephys_Electrodes = None\<rparr>"

datatype warning = NoDevicesFound | DeviceNotDetected string

subsection \<open>\<open>add_devices\<close>\<close>

text \<open>
  Modelled from the spec: \<open>add_devices\<close> of \<open>utils/conversion_tools.py\<close>, which is
  imported by \<open>utils/neo.py\<close> and is not among the sources.  The design (4.1) says: a
  requested device is the existing one if one of that name is in the container, else
  it is created and registered; a device created for a name alone has only its name
  populated; if no device is named and the container has zero devices, a default
  device (name "Device", description "no description") is synthesized.  The call
  \<open>add_devices(nwbfile, metadata=dict(Ecephys=dict(Device=[...])))\<close> of line 168 passes
  no \<open>data_type\<close>, so the default of that argument is \<open>Ecephys\<close>.
\<close>

definition default_device :: device where
  "default_device = \<lparr>device_name = ''Device'', device_description = Some ''no description'',
                      device_manufacturer = None\<rparr>"

definition device_list :: "metadata option \<Rightarrow> data_type \<Rightarrow> device_metadata list" where
  "device_list metadata dt =
     (case metadata of
        None \<Rightarrow> []
      | Some md \<Rightarrow>
          (case (case dt of Ecephys \<Rightarrow> Ecephys_Device md | Icephys \<Rightarrow> Icephys_Device md) of
             None \<Rightarrow> []
           | Some ds \<Rightarrow> ds))"

definition named_devices :: "metadata option \<Rightarrow> data_type \<Rightarrow> device_metadata list" where
  "named_devices metadata dt = filter (\<lambda>d. md_name d \<noteq> None) (device_list metadata dt)"

definition resolve_device :: "device_metadata \<Rightarrow> nwbfile \<Rightarrow> nwbfile" where
  "resolve_device d nwb =
     (case md_name d of
        None \<Rightarrow> nwb
      | Some name \<Rightarrow>
          if name \<in> set (device_names nwb) then nwb
          else nwb\<lparr>devices := devices nwb @
                 [\<lparr>device_name = name, device_description = md_description d,
                   device_manufacturer = md_manufacturer d\<rparr>]\<rparr>)"

definition add_devices :: "nwbfile \<Rightarrow> data_type \<Rightarrow> metadata option \<Rightarrow> nwbfile" where
  "add_devices nwb dt metadata =
     (if named_devices metadata dt = [] then
        (if devices nwb = [] then nwb\<lparr>devices := [default_device]\<rparr> else nwb)
      else fold resolve_device (named_devices metadata dt) nwb)"

subsection \<open>\<open>add_icephys_electrode\<close>\<close>

text \<open>\<open>str\<close> of a natural number, for the f-strings.\<close>

definition str_nat :: "nat \<Rightarrow> string" where
  "str_nat n = map (\<lambda>d. ''0123456789'' ! d) (digits_of n)"

text \<open>An element of \<open>defaults\<close> (lines 146-153): all three keys are present.\<close>

record electrode_defaults =
  default_name :: string
  default_description :: string
  default_device_name :: string

text \<open>
  Lines 146-153.  The comprehension takes the name of the first device once for every
  electrode of the reader, so with an empty device dictionary it raises \<open>IndexError\<close>
  as soon as the reader has one electrode.
\<close>

definition make_defaults :: "nwbfile \<Rightarrow> nat \<Rightarrow> py_error + electrode_defaults list" where
  "make_defaults nwb n_electrodes =
     (if n_electrodes = 0 then Inr []
      else (case devices nwb of
              [] \<Rightarrow> Inl IndexError
            | d # _ \<Rightarrow>
                Inr (map (\<lambda>elec_id.
                       \<lparr>default_name = ''icephys_electrode_'' @ str_nat elec_id,
                        default_description = ''no description'',
                        default_device_name = device_name d\<rparr>)
                     [0..<n_electrodes])))"

definition as_item :: "electrode_defaults \<Rightarrow> electrodes_item" where
  "as_item d = Mapping \<lparr>el_name = Some (default_name d),
                        el_description = Some (default_description d),
                        el_device_name = Some (default_device_name d)\<rparr>"

definition is_mapping :: "electrodes_item \<Rightarrow> bool" where
  "is_mapping x = (case x of Mapping m \<Rightarrow> True | NotMapping \<Rightarrow> False)"

definition mappings :: "electrodes_item list \<Rightarrow> electrode_metadata list" where
  "mappings xs = concat (map (\<lambda>x. case x of Mapping m \<Rightarrow> [m] | NotMapping \<Rightarrow> []) xs)"

text \<open>
  The state of a call that mutates the container: the container, the warnings raised
  so far, and the exception that ended the call, if any.
\<close>

type_synonym run = "nwbfile \<times> warning list \<times> py_error option"

text \<open>
  The body of the loop (lines 164-178) for one element \<open>elec\<close>.  The arguments of
  \<open>elec.get(key, defaults[0][key])\<close> are evaluated before the call, so an empty
  \<open>defaults\<close> raises \<open>IndexError\<close> whether or not \<open>elec\<close> has the key.
\<close>

definition create_electrode :: "electrode_defaults list \<Rightarrow> electrode_metadata \<Rightarrow> nwbfile \<Rightarrow> run" where
  "create_electrode defaults elec nwb =
     (case defaults of
        [] \<Rightarrow> (nwb, [], Some IndexError)
      | d0 # _ \<Rightarrow>
          let name = (case el_name elec of None \<Rightarrow> default_name d0 | Some n \<Rightarrow> n) in
          if name \<in> set (electrode_names nwb) then (nwb, [], None)
          else
            let dev_name = (case el_device_name elec of None \<Rightarrow> default_device_name d0 | Some n \<Rightarrow> n);
                absent = (dev_name \<notin> set (device_names nwb));
                nwb1 = (if absent
                        then add_devices nwb Ecephys
                               (Some (empty_metadata\<lparr>Ecephys_Device :=
                                  Some [\<lparr>md_name = Some dev_name, md_description = None,
                                          md_manufacturer = None\<rparr>]\<rparr>))
                        else nwb);
                ws = (if absent then [DeviceNotDetected dev_name] else [])
            in (case get_device nwb1 dev_name of
                  Inl e \<Rightarrow> (nwb1, ws, Some e)
                | Inr dev \<Rightarrow>
                    (nwb1\<lparr>icephys_electrodes := icephys_electrodes nwb1 @
                        [\<lparr>electrode_name = name,
                          electrode_description =
                            (case el_description elec of None \<Rightarrow> default_description d0 | Some s \<Rightarrow> s),
                          electrode_device = dev\<rparr>]\<rparr>,
                     ws, None)))"

fun create_electrodes :: "electrode_defaults list \<Rightarrow> electrode_metadata list \<Rightarrow> run \<Rightarrow> run" where
  "create_electrodes defaults [] st = st"
| "create_electrodes defaults (elec # rest) (nwb, ws, err) =
     (case create_electrode defaults elec nwb of
        (nwb', ws', Some e) \<Rightarrow> (nwb', ws @ ws', Some e)
      | (nwb', ws', None) \<Rightarrow> create_electrodes defaults rest (nwb', ws @ ws', None))"

text \<open>
  What the call leaves behind: the container, the caller's metadata dictionary (the
  function stores the list it works with under \<open>metadata["Icephys"]["Electrodes"]\<close>;
  a \<open>None\<close> stays \<open>None\<close>, the dictionary made for it is local), the warnings and the
  exception, if any.
\<close>

record outcome =
  out_nwbfile :: nwbfile
  out_metadata :: "metadata option"
  out_warnings :: "warning list"
  out_error :: "py_error option"

text \<open>
  \<open>add_icephys_electrode\<close> for a container that is an \<open>NWBFile\<close> (with \<open>None\<close> the first
  statement already fails on \<open>nwbfile.devices\<close>).  Order of the statements: the device
  check with its warning and \<open>add_devices\<close> (lines 136-138), \<open>defaults\<close> (146-153), the
  choice of the list with \<open>len\<close> (155-156), the assertion (158-160), the loop (163-178).
\<close>

definition add_icephys_electrode :: "'a reader_scheme \<Rightarrow> nwbfile \<Rightarrow> metadata option \<Rightarrow> outcome" where
  "add_icephys_electrode neo_reader nwbfile metadata =
     (let start = (if devices nwbfile = []
                   then (add_devices nwbfile Ecephys metadata, [NoDevicesFound])
                   else (nwbfile, []));
          nwb1 = fst start;
          ws1 = snd start;
          md = (case metadata of None \<Rightarrow> empty_metadata | Some m \<Rightarrow> m)
      in case make_defaults nwb1 (get_number_of_electrodes neo_reader) of
           Inl e \<Rightarrow>
             \<lparr>out_nwbfile = nwb1, out_metadata = metadata, out_warnings = ws1, out_error = Some e\<rparr>
         | Inr defaults \<Rightarrow>
             (case Icephys_Electrodes md of
                Some Unsized \<Rightarrow>
                  \<lparr>out_nwbfile = nwb1, out_metadata = metadata, out_warnings = ws1,
                   out_error = Some TypeError\<rparr>
              | entry \<Rightarrow>
                  let items = (case entry of
                                 Some (Sized xs) \<Rightarrow> if xs = [] then map as_item defaults else xs
                               | _ \<Rightarrow> map as_item defaults);
                      metadata' = (case metadata of
                                     None \<Rightarrow> None
                                   | Some m \<Rightarrow> Some (m\<lparr>Icephys_Electrodes := Some (Sized items)\<rparr>))
                  in if \<not> list_all is_mapping items then
                       \<lparr>out_nwbfile = nwb1, out_metadata = metadata', out_warnings = ws1,
                        out_error = Some AssertionError\<rparr>
                     else
                       (case create_electrodes defaults (mappings items) (nwb1, ws1, None) of
                          (nwb2, ws2, err) \<Rightarrow>
                            \<lparr>out_nwbfile = nwb2, out_metadata = metadata', out_warnings = ws2,
                             out_error = err\<rparr>)))"

subsection \<open>\<open>add_icephys_recording\<close>\<close>

text \<open>\<open>protocol[0][si][ei]\<close>: two list lookups, each raising \<open>IndexError\<close> out of range.\<close>

definition protocol_data :: "real list list list \<Rightarrow> nat \<Rightarrow> nat \<Rightarrow> py_error + real list" where
  "protocol_data traces si ei =
     (if si < length traces then
        (if ei < length (traces ! si) then Inr (traces ! si ! ei) else Inl IndexError)
      else Inl IndexError)"

text \<open>Lines 211-219 and 221-228: the two series of one recording.\<close>

definition response_series :: "neo_reader \<Rightarrow> nat \<Rightarrow> nat \<Rightarrow> icephys_electrode \<Rightarrow> patch_clamp_series" where
  "response_series neo_reader si ei electrode =
     \<lparr>series_name = ''response-'' @ str_nat si @ ''-ch-'' @ str_nat ei,
      series_electrode = electrode,
      series_data = analogsignal_chunk neo_reader si ei,
      series_starting_time = signal_t_start neo_reader si,
      series_rate = signal_sampling_rate neo_reader,
      series_gain = 1000\<rparr>"

definition stimulus_series ::
  "neo_reader \<Rightarrow> nat \<Rightarrow> nat \<Rightarrow> icephys_electrode \<Rightarrow> real list \<Rightarrow> patch_clamp_series" where
  "stimulus_series neo_reader si ei electrode data =
     \<lparr>series_name = ''stimulus-'' @ str_nat si @ ''-ch-'' @ str_nat ei,
      series_electrode = electrode,
      series_data = data,
      series_starting_time = 123.6,
      series_rate = signal_sampling_rate neo_reader,
      series_gain = 1000\<rparr>"

text \<open>
  The inner loop (lines 209-232) over \<open>enumerate(nwbfile.icephys_electrodes.values())\<close>
  and the outer loop (line 207) over \<open>range(n_segments)\<close>.  The response is built
  first, then the stimulus, whose data lookup can raise; only then is the row added.
\<close>

fun record_electrodes ::
  "neo_reader \<Rightarrow> nat \<Rightarrow> (nat \<times> icephys_electrode) list \<Rightarrow> nwbfile \<Rightarrow> nwbfile \<times> py_error option" where
  "record_electrodes neo_reader si [] nwb = (nwb, None)"
| "record_electrodes neo_reader si ((ei, electrode) # rest) nwb =
     (let response = response_series neo_reader si ei electrode in
      case protocol_data (raw_protocol_traces neo_reader) si ei of
        Inl e \<Rightarrow> (nwb, Some e)
      | Inr data \<Rightarrow>
          let stimulus = stimulus_series neo_reader si ei electrode data in
          record_electrodes neo_reader si rest
            (nwb\<lparr>intracellular_recordings := intracellular_recordings nwb @
               [\<lparr>recording_electrode = electrode, recording_stimulus = stimulus,
                 recording_response = response\<rparr>]\<rparr>))"

fun record_segments :: "neo_reader \<Rightarrow> nat list \<Rightarrow> nwbfile \<Rightarrow> nwbfile \<times> py_error option" where
  "record_segments neo_reader [] nwb = (nwb, None)"
| "record_segments neo_reader (si # rest) nwb =
     (case record_electrodes neo_reader si (enumerate 0 (icephys_electrodes nwb)) nwb of
        (nwb', Some e) \<Rightarrow> (nwb', Some e)
      | (nwb', None) \<Rightarrow> record_segments neo_reader rest nwb')"

text \<open>
  \<open>add_icephys_recording\<close> (the \<open>metadata\<close> argument is not read).  With no command
  trace the function only notes the experiment type \<open>i_zero\<close>; otherwise it asserts
  that there is one list of command traces per segment.
\<close>

definition add_icephys_recording :: "neo_reader \<Rightarrow> nwbfile \<Rightarrow> nwbfile \<times> py_error option" where
  "add_icephys_recording neo_reader nwbfile =
     (case get_number_of_segments neo_reader 0 of
        Inl e \<Rightarrow> (nwbfile, Some e)
      | Inr n_segments \<Rightarrow>
          let n_commands = length (raw_protocol_traces neo_reader) in
          if n_commands \<noteq> 0 \<and> int n_commands \<noteq> n_segments then (nwbfile, Some AssertionError)
          else record_segments neo_reader [0..<nat n_segments] nwbfile)"

section \<open>Notions used to state the properties\<close>

subsection \<open>Counts, starts and expected identifiers of a file sequence\<close>

text \<open>
  The segment count \<open>s\<close> and the number \<open>s * e\<close> of entries of a file whose header
  can be read, the electrode count of every segment of a file sequence in order, and
  the start of a file whose header can be read.
\<close>

definition segment_count :: "'a reader_scheme \<Rightarrow> nat" where
  "segment_count r = (case get_number_of_segments r 0 of Inl e \<Rightarrow> 0 | Inr n \<Rightarrow> nat n)"

definition entries_of_file :: "'a reader_scheme \<Rightarrow> nat" where
  "entries_of_file r = segment_count r * get_number_of_electrodes r"

definition electrodes_per_segment :: "reader list \<Rightarrow> nat list" where
  "electrodes_per_segment rs =
     concat (map (\<lambda>r. replicate (segment_count r) (get_number_of_electrodes r)) rs)"

definition start_of :: "'a reader_scheme \<Rightarrow> int" where
  "start_of r = (case file_start r of Inl e \<Rightarrow> 0 | Inr t \<Rightarrow> t)"

text \<open>
  Identifiers shared within groups: for groups of the given sizes, in order, the list
  in which every member of the \<open>g\<close>-th group carries the identifier \<open>start + g\<close>.
\<close>

definition shared_ids :: "nat list \<Rightarrow> int \<Rightarrow> int list" where
  "shared_ids sizes start =
     concat (map (\<lambda>g. replicate (sizes ! g) (start + int g)) [0..<length sizes])"

text \<open>
  The entries of one file with \<open>s\<close> segments and \<open>n\<close> electrodes, when the counters
  stand at \<open>i\<close>, \<open>ii\<close>, \<open>iii\<close> on entry.
\<close>

definition file_block ::
  "int \<Rightarrow> recording_session \<Rightarrow> nat \<Rightarrow> nat \<Rightarrow> int \<Rightarrow> int \<Rightarrow> int \<Rightarrow> recording_entry list" where
  "file_block rel x s n i ii iii =
     concat (map (\<lambda>sg. map (\<lambda>el. recording_dict rel x (i + int (sg * n + el)) (ii + int sg) iii)
                          [0..<n])
                  [0..<s])"

subsection \<open>Example inputs\<close>

text \<open>
  A reader with one block, the given start date and time, segment count and number of
  channels; a file system without a metafile.
\<close>

definition example_reader :: "string \<Rightarrow> int \<Rightarrow> int \<Rightarrow> int \<Rightarrow> nat \<Rightarrow> reader" where
  "example_reader f date ms s e =
     \<lparr>filename = f, uFileStartDate = Some date, uFileStartTimeMS = Some ms, nb_segment = [s],
      signal_channels = replicate e ''Im''\<rparr>"

definition no_metafile :: "string \<Rightarrow> recording_session list option" where
  "no_metafile path = None"

definition no_extra_info :: recording_session where
  "no_extra_info = \<lparr>abf_file_name = None, session_stimulus_type = None,
                     session_icephys_experiment_type = None\<rparr>"

text \<open>
  Two files recorded on 2020-01-01, one minute apart: 2 segments of 2 electrodes, then
  1 segment of 2 electrodes; and the six entries expected for them.
\<close>

definition two_files :: abf_interface where
  "two_files = \<lparr>readers_list = [example_reader ''data/f1.abf'' 20200101 0 2 2,
                               example_reader ''data/f2.abf'' 20200101 60000 1 2],
                metadata_file_path = Some ''meta.json''\<rparr>"

definition two_files_recordings :: "recording_entry list" where
  "two_files_recordings =
     [recording_dict 0 no_extra_info 0 0 0, recording_dict 0 no_extra_info 1 0 0,
      recording_dict 0 no_extra_info 2 1 0, recording_dict 0 no_extra_info 3 1 0,
      recording_dict 60 no_extra_info 4 2 1, recording_dict 60 no_extra_info 5 2 1]"

text \<open>Two files started at midnight of two consecutive days, 86400 seconds apart.\<close>

definition consecutive_days :: abf_interface where
  "consecutive_days = \<lparr>readers_list = [example_reader ''data/day1.abf'' 20200101 0 1 1,
                                      example_reader ''data/day2.abf'' 20200102 0 1 1],
                       metadata_file_path = Some ''meta.json''\<rparr>"

section \<open>Notions used to state the properties of the electrode and recording routines\<close>

subsection \<open>Containers that grow\<close>

text \<open>
  A container \<open>nwb'\<close> extends \<open>nwb\<close> when it keeps the devices and electrodes of \<open>nwb\<close> as
  prefixes of its own, has the same recording rows, links every added electrode to one
  of its devices, and has pairwise distinct device names and electrode names whenever
  \<open>nwb\<close> has.
\<close>

definition extends :: "nwbfile \<Rightarrow> nwbfile \<Rightarrow> bool" where
  "extends nwb nwb' \<longleftrightarrow>
     (\<exists>ds es. devices nwb' = devices nwb @ ds \<and>
        icephys_electrodes nwb' = icephys_electrodes nwb @ es \<and>
        intracellular_recordings nwb' = intracellular_recordings nwb \<and>
        (\<forall>e\<in>set es. electrode_device e \<in> set (devices nwb')) \<and>
        (distinct (device_names nwb) \<longrightarrow> distinct (device_names nwb')) \<and>
        (distinct (electrode_names nwb) \<longrightarrow> distinct (electrode_names nwb')))"

text \<open>
  The metadata that \<open>add_icephys_electrode\<close> passes to \<open>add_devices\<close> for a device name it
  does not find: one device descriptor holding the name only.
\<close>

definition name_only :: "string \<Rightarrow> metadata option" where
  "name_only dev_name =
     Some (empty_metadata\<lparr>Ecephys_Device :=
        Some [\<lparr>md_name = Some dev_name, md_description = None, md_manufacturer = None\<rparr>]\<rparr>)"

text \<open>
  The name and the device name that the loop of \<open>add_icephys_electrode\<close> reads for a
  descriptor: the descriptor's own, or that of the first default.
\<close>

definition resolved_name :: "electrode_defaults list \<Rightarrow> electrode_metadata \<Rightarrow> string" where
  "resolved_name defaults elec =
     (case el_name elec of None \<Rightarrow> default_name (hd defaults) | Some n \<Rightarrow> n)"

definition resolved_device_name :: "electrode_defaults list \<Rightarrow> electrode_metadata \<Rightarrow> string" where
  "resolved_device_name defaults elec =
     (case el_device_name elec of None \<Rightarrow> default_device_name (hd defaults) | Some n \<Rightarrow> n)"

text \<open>
  The container and the warnings after the first statement of \<open>add_icephys_electrode\<close>,
  which adds devices to a container without any.
\<close>

definition after_device_check :: "nwbfile \<Rightarrow> metadata option \<Rightarrow> nwbfile" where
  "after_device_check nwbfile metadata =
     (if devices nwbfile = [] then add_devices nwbfile Ecephys metadata else nwbfile)"

definition device_check_warnings :: "nwbfile \<Rightarrow> warning list" where
  "device_check_warnings nwbfile = (if devices nwbfile = [] then [NoDevicesFound] else [])"

text \<open>
  The \<open>Electrodes\<close> entry of the metadata, the defaults computed for \<open>n\<close> channels on a
  container with a device, the descriptors that the loop works through, and the
  metadata in which those descriptors are stored.
\<close>

definition electrodes_entry_of :: "metadata option \<Rightarrow> electrodes_entry option" where
  "electrodes_entry_of metadata =
     (case metadata of None \<Rightarrow> None | Some m \<Rightarrow> Icephys_Electrodes m)"

definition defaults_for :: "nwbfile \<Rightarrow> nat \<Rightarrow> electrode_defaults list" where
  "defaults_for nwb n =
     map (\<lambda>elec_id.
            \<lparr>default_name = ''icephys_electrode_'' @ str_nat elec_id,
             default_description = ''no description'',
             default_device_name = device_name (hd (devices nwb))\<rparr>)
         [0..<n]"

definition work_items :: "metadata option \<Rightarrow> electrode_defaults list \<Rightarrow> electrodes_item list" where
  "work_items metadata defaults =
     (case electrodes_entry_of metadata of
        Some (Sized xs) \<Rightarrow> if xs = [] then map as_item defaults else xs
      | _ \<Rightarrow> map as_item defaults)"

definition store_items :: "metadata option \<Rightarrow> electrodes_item list \<Rightarrow> metadata option" where
  "store_items metadata items =
     (case metadata of
        None \<Rightarrow> None
      | Some m \<Rightarrow> Some (m\<lparr>Icephys_Electrodes := Some (Sized items)\<rparr>))"



subsection \<open>Rows of recordings\<close>

text \<open>
  The row that \<open>add_icephys_recording\<close> appends for segment \<open>si\<close> and the enumerated
  electrode \<open>x\<close>, the rows of one segment, and the rows of the first \<open>n\<close> segments.
\<close>

definition recording_row :: "neo_reader \<Rightarrow> nat \<Rightarrow> nat \<times> icephys_electrode \<Rightarrow> intracellular_recording" where
  "recording_row r si x =
     \<lparr>recording_electrode = snd x,
      recording_stimulus =
        stimulus_series r si (fst x) (snd x) (raw_protocol_traces r ! si ! fst x),
      recording_response = response_series r si (fst x) (snd x)\<rparr>"

definition segment_rows :: "neo_reader \<Rightarrow> icephys_electrode list \<Rightarrow> nat \<Rightarrow> intracellular_recording list" where
  "segment_rows r es si = map (recording_row r si) (enumerate 0 es)"

definition all_rows :: "neo_reader \<Rightarrow> icephys_electrode list \<Rightarrow> nat \<Rightarrow> intracellular_recording list" where
  "all_rows r es n = concat (map (segment_rows r es) [0..<n])"

subsection \<open>Example containers, metadata and readers\<close>

text \<open>
  A reader with one segment and one channel; an empty container, a container holding
  the default device, and the latter after the electrode \<open>patch_1\<close> on the device
  \<open>Amplifier\<close> has been added.
\<close>

definition one_channel :: reader where
  "one_channel = example_reader ''data/cell.abf'' 20200101 0 1 1"

definition empty_nwbfile :: nwbfile where
  "empty_nwbfile = \<lparr>devices = [], icephys_electrodes = [], intracellular_recordings = []\<rparr>"

definition device_only_nwbfile :: nwbfile where
  "device_only_nwbfile = \<lparr>devices = [default_device], icephys_electrodes = [],
                           intracellular_recordings = []\<rparr>"

definition amplifier :: device where
  "amplifier = \<lparr>device_name = ''Amplifier'', device_description = None, device_manufacturer = None\<rparr>"

definition patch_1 :: icephys_electrode where
  "patch_1 = \<lparr>electrode_name = ''patch_1'', electrode_description = ''no description'',
              electrode_device = amplifier\<rparr>"

definition patched_nwbfile :: nwbfile where
  "patched_nwbfile = \<lparr>devices = [default_device, amplifier], icephys_electrodes = [patch_1],
                       intracellular_recordings = []\<rparr>"

text \<open>
  Metadata holding the given \<open>Electrodes\<close> list, a descriptor with a name and a device
  name, the defaults computed for \<open>one_channel\<close> on a container whose first device is
  the default device, and the record of the descriptor \<open>patch_1\<close> on \<open>Amplifier\<close>.
\<close>

definition electrodes_metadata :: "electrodes_item list \<Rightarrow> metadata option" where
  "electrodes_metadata items = Some (empty_metadata\<lparr>Icephys_Electrodes := Some (Sized items)\<rparr>)"

definition descriptor :: "string \<Rightarrow> string \<Rightarrow> electrodes_item" where
  "descriptor name dev = Mapping \<lparr>el_name = Some name, el_description = None, el_device_name = Some dev\<rparr>"



text \<open>
  A reader of one block with \<open>s\<close> segments, \<open>e\<close> channels and the given command traces,
  whose segment \<open>si\<close> starts at \<open>2 * si\<close> seconds; a reader with two segments and two
  commands, one with two segments and one command, and one with one segment and no
  command.
\<close>

definition example_neo_reader :: "int \<Rightarrow> nat \<Rightarrow> real list list list \<Rightarrow> neo_reader" where
  "example_neo_reader s e traces =
     \<lparr>filename = ''data/cell.abf'', uFileStartDate = Some 20200101, uFileStartTimeMS = Some 0,
      nb_segment = [s], signal_channels = replicate e ''Im'',
      raw_protocol_traces = traces,
      signal_t_start = (\<lambda>si. 2 * real si),
      signal_sampling_rate = 10000,
      analogsignal_chunk = (\<lambda>si ei. [real si, real ei])\<rparr>"

definition two_sweeps :: neo_reader where
  "two_sweeps = example_neo_reader 2 1 [[[0, 1]], [[0, 2]]]"



section \<open>Properties of \<open>get_metadata\<close>\<close>

subsection \<open>Closed forms of the loops\<close>

lemma electrodes_loop_eq:
  "electrodes_loop rel x n (recs, i, ii, iii) =
     (recs @ map (\<lambda>el. recording_dict rel x (i + int el) ii iii) [0..<n], i + int n, ii, iii)"
  by (induction n) (simp_all add: electrodes_loop_def)

lemma segments_fold:
  "fold (\<lambda>sg st. case electrodes_loop rel x n st of (recs, i, ii, iii) \<Rightarrow> (recs, i, ii + 1, iii))
          [0..<k] (recs, i, ii, iii) =
     (recs @ concat (map (\<lambda>sg. map (\<lambda>el. recording_dict rel x (i + int (sg * n + el)) (ii + int sg) iii) [0..<n])
                      [0..<k]),
      i + int (k * n), ii + int k, iii)"
proof (induction k)
  case 0
  show ?case by simp
next
  case (Suc k)
  show ?case using Suc by (simp add: electrodes_loop_eq add.assoc)
qed

lemma segments_loop_eq:
  "segments_loop rel x s n (recs, i, ii, iii) =
     (recs @ concat (map (\<lambda>sg. map (\<lambda>el. recording_dict rel x (i + int (sg * n + el)) (ii + int sg) iii) [0..<n])
                      [0..<nat s]),
      i + int (nat s * n), ii + int (nat s), iii)"
  unfolding segments_loop_def by (rule segments_fold)

lemma shared_ids_Nil: "shared_ids [] start = []"
  by (simp add: shared_ids_def)

lemma shared_ids_Cons: "shared_ids (c # cs) start = replicate c start @ shared_ids cs (start + 1)"
proof -
  have "[0..<Suc (length cs)] = 0 # map Suc [0..<length cs]"
    by (simp add: upt_conv_Cons map_Suc_upt del: upt_Suc)
  then show ?thesis
    by (simp add: shared_ids_def comp_def add.assoc del: upt_Suc)
qed

lemma shared_ids_append:
  "shared_ids (cs @ ds) start = shared_ids cs start @ shared_ids ds (start + int (length cs))"
  by (induction cs arbitrary: start) (simp_all add: shared_ids_Nil shared_ids_Cons add.assoc)

lemma shared_ids_replicate:
  "shared_ids (replicate s e) start = concat (map (\<lambda>sg. replicate e (start + int sg)) [0..<s])"
proof -
  have h: "map (\<lambda>g. replicate (replicate s e ! g) (start + int g)) [0..<s] =
        map (\<lambda>sg. replicate e (start + int sg)) [0..<s]"
    by (rule map_cong) auto
  show ?thesis by (simp only: shared_ids_def length_replicate h)
qed

lemma upt_split: "[0..<a + b] = [0..<a] @ map (\<lambda>k. a + k) [0..<b]"
proof -
  have "[0..<a + b] = [0..<a] @ [a..<a + b]"
    by (rule upt_add_eq_append) simp
  moreover have "[a..<a + b] = map (\<lambda>k. a + k) [0..<b]"
    using map_add_upt [of a b] by (simp add: add.commute)
  ultimately show ?thesis by simp
qed

lemma concat_blocks:
  "concat (map (\<lambda>sg. map (\<lambda>el. f (sg * n + el)) [0..<n]) [0..<s]) = map f [0..<s * n]"
proof (induction s)
  case 0
  show ?case by simp
next
  case (Suc s)
  have "map f [0..<Suc s * n] = map f [0..<s * n] @ map (\<lambda>el. f (s * n + el)) [0..<n]"
    using upt_split [of "s * n" n] by (simp add: add.commute comp_def)
  then show ?case using Suc by simp
qed

lemma file_block_intracellular:
  "map intracellular_recordings_table_id (file_block rel x s n i ii iii) = map (\<lambda>k. i + int k) [0..<s * n]"
proof -
  have "map intracellular_recordings_table_id (file_block rel x s n i ii iii) =
        concat (map (\<lambda>sg. map (\<lambda>el. i + int (sg * n + el)) [0..<n]) [0..<s])"
    by (simp add: file_block_def map_concat comp_def recording_dict_def)
  then show ?thesis by (simp only: concat_blocks [of "\<lambda>k. i + int k"])
qed

lemma concat_replicate_const: "concat (map (\<lambda>sg. replicate n c) [0..<s]) = replicate (s * n) c"
  by (induction s) (simp_all add: replicate_add [symmetric] add.commute)

lemma file_block_sequential:
  "map sequential_recordings_table_id (file_block rel x s n i ii iii) = replicate (s * n) iii"
proof -
  have "map sequential_recordings_table_id (file_block rel x s n i ii iii) =
        concat (map (\<lambda>sg. replicate n iii) [0..<s])"
    by (simp add: file_block_def map_concat comp_def recording_dict_def map_replicate_const)
  then show ?thesis by (simp only: concat_replicate_const)
qed

lemma file_block_relative:
  "map relative_session_start_time (file_block rel x s n i ii iii) = replicate (s * n) rel"
proof -
  have "map relative_session_start_time (file_block rel x s n i ii iii) =
        concat (map (\<lambda>sg. replicate n rel) [0..<s])"
    by (simp add: file_block_def map_concat comp_def recording_dict_def map_replicate_const)
  then show ?thesis by (simp only: concat_replicate_const)
qed

lemma file_block_simultaneous:
  "map simultaneous_recordings_table_id (file_block rel x s n i ii iii) = shared_ids (replicate s n) ii"
  by (simp add: file_block_def map_concat comp_def recording_dict_def map_replicate_const
        shared_ids_replicate)

lemma segments_loop_block:
  "segments_loop rel x s n (recs, i, ii, iii) =
     (recs @ file_block rel x (nat s) n i ii iii, i + int (nat s * n), ii + int (nat s), iii)"
  by (simp only: segments_loop_eq file_block_def)

lemma entries_of_file_eq: "segment_count r * get_number_of_electrodes r = entries_of_file r"
  by (simp add: entries_of_file_def)

lemma readers_loop_Cons_Inr:
  assumes "readers_loop ms t0 (r # rs) st = Inr st'"
  obtains t n where "file_start r = Inr t" and "get_number_of_segments r 0 = Inr n"
  using assms by (cases "file_start r"; cases "get_number_of_segments r 0") (simp_all add: Let_def)

lemma readers_loop_Cons_step:
  assumes "file_start r = Inr t" and "get_number_of_segments r 0 = Inr n"
  shows "readers_loop ms t0 (r # rs) (recs, i, ii, iii) =
         readers_loop ms t0 rs
           (recs @ file_block (timedelta_seconds (start_of r) t0)
                      (get_extra_info ms (last_component [] (filename r)))
                      (segment_count r) (get_number_of_electrodes r) i ii iii,
            i + int (entries_of_file r), ii + int (segment_count r), iii + 1)"
  using assms
  by (simp add: Let_def segments_loop_block start_of_def segment_count_def entries_of_file_def)

lemma readers_loop_ids:
  assumes "readers_loop ms t0 rs (recs, i, ii, iii) = Inr (recs', i', ii', iii')"
  shows "map intracellular_recordings_table_id recs' =
           map intracellular_recordings_table_id recs @
           map (\<lambda>k. i + int k) [0..<sum_list (map entries_of_file rs)]"
    and "map sequential_recordings_table_id recs' =
           map sequential_recordings_table_id recs @ shared_ids (map entries_of_file rs) iii"
    and "map simultaneous_recordings_table_id recs' =
           map simultaneous_recordings_table_id recs @ shared_ids (electrodes_per_segment rs) ii"
    and "map relative_session_start_time recs' =
           map relative_session_start_time recs @
           concat (map (\<lambda>r. replicate (entries_of_file r) (timedelta_seconds (start_of r) t0)) rs)"
  using assms
proof (induction rs arbitrary: recs i ii iii)
  case Nil
  {
    case 1 then show ?case by (simp add: shared_ids_Nil)
  next
    case 2 then show ?case by (simp add: shared_ids_Nil)
  next
    case 3 then show ?case by (simp add: shared_ids_Nil electrodes_per_segment_def)
  next
    case 4 then show ?case by simp
  }
next
  case (Cons r rs)
  {
    case 1
    from 1 obtain t n where ok: "file_start r = Inr t" "get_number_of_segments r 0 = Inr n"
      by (rule readers_loop_Cons_Inr)
    have "map (\<lambda>k. i + int k) [0..<entries_of_file r + sum_list (map entries_of_file rs)] =
          map (\<lambda>k. i + int k) [0..<entries_of_file r] @
          map (\<lambda>k. i + int (entries_of_file r) + int k) [0..<sum_list (map entries_of_file rs)]"
      by (simp only: upt_split map_append map_map comp_def of_nat_add add.assoc)
    then show ?case
      using Cons.IH(1) [OF 1 [unfolded readers_loop_Cons_step [OF ok]]]
      by (simp add: file_block_intracellular entries_of_file_eq)
  next
    case 2
    from 2 obtain t n where ok: "file_start r = Inr t" "get_number_of_segments r 0 = Inr n"
      by (rule readers_loop_Cons_Inr)
    show ?case
      using Cons.IH(2) [OF 2 [unfolded readers_loop_Cons_step [OF ok]]]
      by (simp add: file_block_sequential entries_of_file_eq shared_ids_Cons)
  next
    case 3
    from 3 obtain t n where ok: "file_start r = Inr t" "get_number_of_segments r 0 = Inr n"
      by (rule readers_loop_Cons_Inr)
    have "electrodes_per_segment (r # rs) =
          replicate (segment_count r) (get_number_of_electrodes r) @ electrodes_per_segment rs"
      by (simp add: electrodes_per_segment_def)
    then show ?case
      using Cons.IH(3) [OF 3 [unfolded readers_loop_Cons_step [OF ok]]]
      by (simp add: file_block_simultaneous shared_ids_append)
  next
    case 4
    from 4 obtain t n where ok: "file_start r = Inr t" "get_number_of_segments r 0 = Inr n"
      by (rule readers_loop_Cons_Inr)
    show ?case
      using Cons.IH(4) [OF 4 [unfolded readers_loop_Cons_step [OF ok]]]
      by (simp add: file_block_relative entries_of_file_eq)
  }
qed

lemma set_shared_ids:
  assumes "\<forall>c\<in>set cs. 0 < c"
  shows "set (shared_ids cs start) = (\<lambda>g. start + int g) ` {0..<length cs}"
proof -
  have "\<And>g. g < length cs \<Longrightarrow> set (replicate (cs ! g) (start + int g)) = {start + int g}"
    using assms by (simp add: set_replicate_conv_if)
  then show ?thesis by (auto simp: shared_ids_def)
qed

lemma card_shared_ids:
  assumes "\<forall>c\<in>set cs. 0 < c"
  shows "card (set (shared_ids cs start)) = length cs"
proof -
  have "inj_on (\<lambda>g. start + int g) {0..<length cs}"
    by (rule inj_onI) simp
  then show ?thesis
    by (simp add: set_shared_ids [OF assms] card_image)
qed

lemma length_electrodes_per_segment:
  "length (electrodes_per_segment rs) = sum_list (map segment_count rs)"
  by (induction rs) (simp_all add: electrodes_per_segment_def)

lemma get_metadata_Inr:
  assumes "get_metadata load_sessions self = Inr recs"
  obtains ms r0 rs t0 i ii iii where "readers_list self = r0 # rs" and "file_start r0 = Inr t0"
    and "readers_loop ms t0 (r0 # rs) ([], 0, 0, 0) = Inr (recs, i, ii, iii)"
  using assms
  by (auto simp: get_metadata_def Let_def split: option.splits list.splits sum.splits)

subsection \<open>The example inputs, evaluated\<close>

lemma digits_20200101: "digits_of 20200101 = [2, 0, 2, 0, 0, 1, 0, 1]"
  by (simp add: digits_of.simps)

lemma strptime_20200101: "strptime_Ymd 20200101 = Inr 63713520000"
  by (simp add: strptime_Ymd_def digits_20200101 days_in_month_def ymd2ord_def
        days_before_year_def days_before_month_def is_leap_def upto.simps)

lemma file_start_f1: "file_start (example_reader f 20200101 0 s e) = Inr 63713520000"
  by (simp add: file_start_def example_reader_def strptime_20200101 round_ms_def add_seconds_def)

lemma file_start_f2: "file_start (example_reader f 20200101 60000 s e) = Inr 63713520060"
  by (simp add: file_start_def example_reader_def strptime_20200101 round_ms_def add_seconds_def)

lemma readers_loop_example:
  assumes "file_start (example_reader f d m s e) = Inr t"
  shows "readers_loop ms t0 (example_reader f d m s e # rs) (recs, i, ii, iii) =
         readers_loop ms t0 rs
           (recs @ file_block (timedelta_seconds t t0) (get_extra_info ms (last_component [] f))
                      (nat s) e i ii iii,
            i + int (nat s * e), ii + int (nat s), iii + 1)"
proof -
  have n: "get_number_of_segments (example_reader f d m s e) 0 = Inr s"
    by (simp add: get_number_of_segments_def example_reader_def)
  have e: "get_number_of_electrodes (example_reader f d m s e) = e"
    by (simp add: get_number_of_electrodes_def example_reader_def)
  have f: "filename (example_reader f d m s e) = f"
    by (simp add: example_reader_def)
  show ?thesis
    by (simp only: readers_loop_Cons_step [OF assms n] start_of_def assms segment_count_def n
          entries_of_file_def e f sum.case)
qed

lemma upt_2: "[0..<2] = [0, 1]"
  by (simp add: eval_nat_numeral)

lemma get_metadata_two_files: "get_metadata no_metafile two_files = Inr two_files_recordings"
  by (simp add: get_metadata_def no_metafile_def two_files_def file_start_f1 file_start_f2
        readers_loop_example [OF file_start_f1] readers_loop_example [OF file_start_f2]
        file_block_def upt_2 get_extra_info_def timedelta_seconds_def
        two_files_recordings_def no_extra_info_def del: readers_loop.simps(2))

subsection \<open>The hierarchical counters\<close>

lemma get_metadata_ids:
  assumes "get_metadata load_sessions self = Inr recs"
  shows "map intracellular_recordings_table_id recs =
           map int [0..<sum_list (map entries_of_file (readers_list self))]"
    and "map sequential_recordings_table_id recs = shared_ids (map entries_of_file (readers_list self)) 0"
    and "map simultaneous_recordings_table_id recs =
           shared_ids (electrodes_per_segment (readers_list self)) 0"
proof -
  from assms obtain ms r0 rs t0 i ii iii where rl: "readers_list self = r0 # rs"
    and loop: "readers_loop ms t0 (r0 # rs) ([], 0, 0, 0) = Inr (recs, i, ii, iii)"
    by (rule get_metadata_Inr)
  show "map intracellular_recordings_table_id recs =
           map int [0..<sum_list (map entries_of_file (readers_list self))]"
    using readers_loop_ids(1) [OF loop] by (simp add: rl)
  show "map sequential_recordings_table_id recs = shared_ids (map entries_of_file (readers_list self)) 0"
    using readers_loop_ids(2) [OF loop] by (simp add: rl)
  show "map simultaneous_recordings_table_id recs =
           shared_ids (electrodes_per_segment (readers_list self)) 0"
    using readers_loop_ids(3) [OF loop] by (simp add: rl)
qed

lemma electrodes_per_segment_pos:
  assumes "\<forall>r\<in>set rs. 0 < segment_count r \<and> 0 < get_number_of_electrodes r"
  shows "\<forall>c\<in>set (electrodes_per_segment rs). 0 < c"
  using assms by (auto simp: electrodes_per_segment_def)

text \<open>
  C1, as amended.  Whenever \<open>get_metadata\<close> returns for a sequence of files where file
  \<open>k\<close> has \<open>s\<close> segments and \<open>e\<close> electrodes: the intracellular ids of the entries are
  \<open>0, 1, ..., sum (s * e) - 1\<close> in emission order; all \<open>s * e\<close> entries of the \<open>k\<close>-th file
  carry the sequential id \<open>k\<close>; all \<open>e\<close> entries of the \<open>g\<close>-th segment overall carry the
  simultaneous id \<open>g\<close>.  When every file has at least one segment and one electrode,
  the entries therefore show exactly \<open>n\<close> distinct sequential ids and \<open>sum s\<close> distinct
  simultaneous ids.  (For the two files of the scenario the intracellular ids are
  0..5: there are six entries, not eight.)
\<close>

theorem hierarchical_counter_laws:
  assumes "get_metadata load_sessions self = Inr recs"
  shows "map intracellular_recordings_table_id recs =
           map int [0..<sum_list (map entries_of_file (readers_list self))] \<and>
         map sequential_recordings_table_id recs =
           shared_ids (map entries_of_file (readers_list self)) 0 \<and>
         map simultaneous_recordings_table_id recs =
           shared_ids (electrodes_per_segment (readers_list self)) 0 \<and>
         ((\<forall>r\<in>set (readers_list self). 0 < segment_count r \<and> 0 < get_number_of_electrodes r) \<longrightarrow>
            card (set (map sequential_recordings_table_id recs)) = length (readers_list self) \<and>
            card (set (map simultaneous_recordings_table_id recs)) =
              sum_list (map segment_count (readers_list self)))"
proof (intro conjI impI)
  assume pos: "\<forall>r\<in>set (readers_list self). 0 < segment_count r \<and> 0 < get_number_of_electrodes r"
  then have "\<forall>c\<in>set (map entries_of_file (readers_list self)). 0 < c"
    by (simp add: entries_of_file_def)
  then show "card (set (map sequential_recordings_table_id recs)) = length (readers_list self)"
    by (simp only: get_metadata_ids(2) [OF assms] card_shared_ids length_map)
  show "card (set (map simultaneous_recordings_table_id recs)) =
          sum_list (map segment_count (readers_list self))"
    by (simp only: get_metadata_ids(3) [OF assms] card_shared_ids [OF electrodes_per_segment_pos [OF pos]]
          length_electrodes_per_segment)
qed (rule get_metadata_ids [OF assms])+

text \<open>
  The scenario of two files, 2 segments of 2 electrodes and 1 segment of 2 electrodes:
  intracellular ids 0..5, simultaneous ids 0, 0, 1, 1 then 2, 2, sequential ids
  0, 0, 0, 0 then 1, 1.
\<close>

lemma two_files_counts:
  "map segment_count (readers_list two_files) = [2, 1]"
  "map get_number_of_electrodes (readers_list two_files) = [2, 2]"
  "map entries_of_file (readers_list two_files) = [4, 2]"
  by (simp_all add: two_files_def example_reader_def segment_count_def entries_of_file_def
        get_number_of_segments_def get_number_of_electrodes_def)

theorem hierarchical_counter_laws_witness:
  "get_metadata no_metafile two_files = Inr two_files_recordings \<and>
   map segment_count (readers_list two_files) = [2, 1] \<and>
   map get_number_of_electrodes (readers_list two_files) = [2, 2] \<and>
   map intracellular_recordings_table_id two_files_recordings = [0, 1, 2, 3, 4, 5] \<and>
   map simultaneous_recordings_table_id two_files_recordings = [0, 0, 1, 1, 2, 2] \<and>
   map sequential_recordings_table_id two_files_recordings = [0, 0, 0, 0, 1, 1] \<and>
   card (set (map sequential_recordings_table_id two_files_recordings)) = 2 \<and>
   card (set (map simultaneous_recordings_table_id two_files_recordings)) = 3"
proof -
  note h = get_metadata_two_files
  have pos: "\<forall>r\<in>set (readers_list two_files). 0 < segment_count r \<and> 0 < get_number_of_electrodes r"
    by (simp add: two_files_def example_reader_def segment_count_def
          get_number_of_segments_def get_number_of_electrodes_def)
  have ids: "map intracellular_recordings_table_id two_files_recordings = [0, 1, 2, 3, 4, 5]"
       "map simultaneous_recordings_table_id two_files_recordings = [0, 0, 1, 1, 2, 2]"
       "map sequential_recordings_table_id two_files_recordings = [0, 0, 0, 0, 1, 1]"
    by (simp_all add: two_files_recordings_def recording_dict_def)
  from hierarchical_counter_laws [OF h] pos
  have "card (set (map sequential_recordings_table_id two_files_recordings)) =
          length (readers_list two_files)"
    and "card (set (map simultaneous_recordings_table_id two_files_recordings)) =
          sum_list (map segment_count (readers_list two_files))"
    by blast+
  then show ?thesis
    using h ids by (simp add: two_files_counts)
qed

text \<open>
  The claim as stated gives the intracellular ids of the scenario as 0..7; the code
  emits six entries with the ids 0..5.
\<close>

theorem scenario_ids_counterexample:
  "get_metadata no_metafile two_files = Inr two_files_recordings \<and>
   map intracellular_recordings_table_id two_files_recordings = [0, 1, 2, 3, 4, 5] \<and>
   map intracellular_recordings_table_id two_files_recordings \<noteq> [0, 1, 2, 3, 4, 5, 6, 7]"
  using get_metadata_two_files by (simp add: two_files_recordings_def recording_dict_def)

subsection \<open>The relative session start time\<close>

lemma shared_ids_ge: "x \<in> set (shared_ids cs start) \<Longrightarrow> start \<le> x"
  by (auto simp: shared_ids_def)

lemma get_metadata_first_file:
  assumes "get_metadata load_sessions self = Inr recs"
  obtains rest where
    "map relative_session_start_time recs =
       replicate (entries_of_file (hd (readers_list self))) 0 @ rest"
    "map sequential_recordings_table_id recs =
       replicate (entries_of_file (hd (readers_list self))) 0 @
       shared_ids (map entries_of_file (tl (readers_list self))) 1"
proof -
  from assms obtain ms r0 rs t0 i ii iii where rl: "readers_list self = r0 # rs"
    and t0: "file_start r0 = Inr t0"
    and loop: "readers_loop ms t0 (r0 # rs) ([], 0, 0, 0) = Inr (recs, i, ii, iii)"
    by (rule get_metadata_Inr)
  have "timedelta_seconds (start_of r0) t0 = 0"
    by (simp add: start_of_def t0 timedelta_seconds_def)
  then have "map relative_session_start_time recs =
       replicate (entries_of_file (hd (readers_list self))) 0 @
       concat (map (\<lambda>r. replicate (entries_of_file r) (timedelta_seconds (start_of r) t0)) rs)"
    using readers_loop_ids(4) [OF loop] by (simp add: rl)
  moreover have "map sequential_recordings_table_id recs =
       replicate (entries_of_file (hd (readers_list self))) 0 @
       shared_ids (map entries_of_file (tl (readers_list self))) 1"
    using readers_loop_ids(2) [OF loop] by (simp add: rl shared_ids_Cons)
  ultimately show thesis by (rule that)
qed

text \<open>
  C3.  Whenever \<open>get_metadata\<close> returns, every entry of the first file has
  \<open>relative_session_start_time = 0\<close>.  The entries of the first file are the first
  \<open>s * e\<close> entries of the list, and they are the entries with sequential id 0.
\<close>

theorem first_file_relative_time_zero:
  assumes "get_metadata load_sessions self = Inr recs"
  shows "(\<forall>e\<in>set (take (entries_of_file (hd (readers_list self))) recs).
            relative_session_start_time e = 0) \<and>
         (\<forall>e\<in>set recs. sequential_recordings_table_id e = 0 \<longrightarrow> relative_session_start_time e = 0)"
proof -
  define n where "n = entries_of_file (hd (readers_list self))"
  from assms obtain rest where
    rel: "map relative_session_start_time recs = replicate n 0 @ rest" and
    seq: "map sequential_recordings_table_id recs =
            replicate n 0 @ shared_ids (map entries_of_file (tl (readers_list self))) 1"
    unfolding n_def by (rule get_metadata_first_file)
  have at: "relative_session_start_time (recs ! k) = 0" if "k < n" "k < length recs" for k
  proof -
    have "map relative_session_start_time recs ! k = 0"
      using that by (simp add: rel nth_append)
    then show ?thesis using that by simp
  qed
  have first: "\<forall>e\<in>set (take n recs). relative_session_start_time e = 0"
  proof
    fix e assume "e \<in> set (take n recs)"
    then obtain k where "k < length (take n recs)" "e = take n recs ! k"
      by (auto simp: in_set_conv_nth)
    then show "relative_session_start_time e = 0" using at [of k] by simp
  qed
  have zero: "\<forall>e\<in>set recs. sequential_recordings_table_id e = 0 \<longrightarrow> relative_session_start_time e = 0"
  proof (intro ballI impI)
    fix e assume "e \<in> set recs" and z: "sequential_recordings_table_id e = 0"
    then obtain k where k: "k < length recs" "e = recs ! k"
      by (auto simp: in_set_conv_nth)
    have "k < n"
    proof (rule ccontr)
      assume "\<not> k < n"
      moreover have "length (map sequential_recordings_table_id recs) = length recs" by simp
      ultimately have "map sequential_recordings_table_id recs ! k \<in>
            set (shared_ids (map entries_of_file (tl (readers_list self))) 1)"
        using k(1) unfolding seq by (simp add: nth_append)
      then have "1 \<le> map sequential_recordings_table_id recs ! k" by (rule shared_ids_ge)
      then show False using k z by simp
    qed
    then show "relative_session_start_time e = 0" using at k by simp
  qed
  from first zero show ?thesis unfolding n_def by blast
qed

lemma map_all_equal: "\<forall>x\<in>set xs. f x = c \<Longrightarrow> map f xs = replicate (length xs) c"
  by (induction xs) simp_all

theorem first_file_relative_time_zero_witness:
  "get_metadata no_metafile two_files = Inr two_files_recordings \<and>
   entries_of_file (hd (readers_list two_files)) = 4 \<and>
   map relative_session_start_time (take 4 two_files_recordings) = [0, 0, 0, 0] \<and>
   map relative_session_start_time
     (filter (\<lambda>e. sequential_recordings_table_id e = 0) two_files_recordings) = [0, 0, 0, 0]"
proof -
  note h = get_metadata_two_files
  have n: "entries_of_file (hd (readers_list two_files)) = 4"
    using two_files_counts(3) by (simp add: two_files_def)
  have len: "length (take 4 two_files_recordings) = 4"
       "length (filter (\<lambda>e. sequential_recordings_table_id e = 0) two_files_recordings) = 4"
    by (simp_all add: two_files_recordings_def recording_dict_def)
  from first_file_relative_time_zero [OF h]
  have a: "\<forall>e\<in>set (take 4 two_files_recordings). relative_session_start_time e = 0"
    and b: "\<forall>e\<in>set (filter (\<lambda>e. sequential_recordings_table_id e = 0) two_files_recordings).
             relative_session_start_time e = 0"
    by (simp_all add: n)
  have "map relative_session_start_time (take 4 two_files_recordings) = replicate 4 0"
    using map_all_equal [OF a] by (simp only: len)
  moreover have "map relative_session_start_time
     (filter (\<lambda>e. sequential_recordings_table_id e = 0) two_files_recordings) = replicate 4 0"
    using map_all_equal [OF b] by (simp only: len)
  ultimately show ?thesis using h n by (simp add: eval_nat_numeral)
qed

text \<open>
  The second file of \<open>consecutive_days\<close> starts 86400 seconds after the first.
\<close>

lemma digits_20200102: "digits_of 20200102 = [2, 0, 2, 0, 0, 1, 0, 2]"
  by (simp add: digits_of.simps)

lemma strptime_20200102: "strptime_Ymd 20200102 = Inr 63713606400"
  by (simp add: strptime_Ymd_def digits_20200102 days_in_month_def ymd2ord_def
        days_before_year_def days_before_month_def is_leap_def upto.simps)

lemma file_start_day2: "file_start (example_reader f 20200102 0 s e) = Inr 63713606400"
  by (simp add: file_start_def example_reader_def strptime_20200102 round_ms_def add_seconds_def)

text \<open>
  C2 says that \<open>relative_session_start_time\<close> is the start of the entry's file minus
  the start of the first file, in whole seconds.  The code reads \<open>.seconds\<close> of the
  difference, which is the difference modulo one day: for two files started exactly
  one day apart the entry of the second file carries 0, not 86400.
\<close>

theorem relative_time_drops_whole_days:
  "get_metadata no_metafile consecutive_days =
     Inr [recording_dict 0 no_extra_info 0 0 0, recording_dict 0 no_extra_info 1 1 1] \<and>
   file_start (readers_list consecutive_days ! 0) = Inr 63713520000 \<and>
   file_start (readers_list consecutive_days ! 1) = Inr (63713520000 + 86400)"
  by (simp add: get_metadata_def no_metafile_def consecutive_days_def file_start_f1 file_start_day2
        readers_loop_example [OF file_start_f1] readers_loop_example [OF file_start_day2]
        file_block_def get_extra_info_def timedelta_seconds_def
        no_extra_info_def del: readers_loop.simps(2))

section \<open>The electrode routine\<close>

subsection \<open>Containers only grow\<close>

lemma extends_refl: "extends nwb nwb"
  by (simp add: extends_def)

lemma extends_trans:
  assumes "extends a b" and "extends b c"
  shows "extends a c"
proof -
  from assms(1) obtain ds es where ab: "devices b = devices a @ ds"
    "icephys_electrodes b = icephys_electrodes a @ es"
    "intracellular_recordings b = intracellular_recordings a"
    "\<forall>e\<in>set es. electrode_device e \<in> set (devices b)"
    "distinct (device_names a) \<longrightarrow> distinct (device_names b)"
    "distinct (electrode_names a) \<longrightarrow> distinct (electrode_names b)"
    unfolding extends_def by blast
  from assms(2) obtain ds' es' where bc: "devices c = devices b @ ds'"
    "icephys_electrodes c = icephys_electrodes b @ es'"
    "intracellular_recordings c = intracellular_recordings b"
    "\<forall>e\<in>set es'. electrode_device e \<in> set (devices c)"
    "distinct (device_names b) \<longrightarrow> distinct (device_names c)"
    "distinct (electrode_names b) \<longrightarrow> distinct (electrode_names c)"
    unfolding extends_def by blast
  have "devices c = devices a @ (ds @ ds')" using ab(1) bc(1) by simp
  moreover have "icephys_electrodes c = icephys_electrodes a @ (es @ es')" using ab(2) bc(2) by simp
  moreover have "intracellular_recordings c = intracellular_recordings a" using ab(3) bc(3) by simp
  moreover have "\<forall>e\<in>set (es @ es'). electrode_device e \<in> set (devices c)"
    using ab(4) bc(4) bc(1) by auto
  moreover have "distinct (device_names a) \<longrightarrow> distinct (device_names c)" using ab(5) bc(5) by blast
  moreover have "distinct (electrode_names a) \<longrightarrow> distinct (electrode_names c)" using ab(6) bc(6) by blast
  ultimately show ?thesis unfolding extends_def by blast
qed

lemma resolve_device_extends: "extends nwb (resolve_device d nwb)"
  by (auto simp: extends_def resolve_device_def device_names_def electrode_names_def split: option.splits)

lemma fold_resolve_device_extends: "extends nwb (fold resolve_device ds nwb)"
proof (induction ds arbitrary: nwb)
  case Nil
  show ?case by (simp add: extends_refl)
next
  case (Cons d ds)
  show ?case using extends_trans [OF resolve_device_extends Cons] by simp
qed

lemma add_devices_extends: "extends nwb (add_devices nwb dt metadata)"
proof (cases "named_devices metadata dt = []")
  case True
  then show ?thesis
    by (auto simp: add_devices_def extends_def device_names_def electrode_names_def)
next
  case False
  then show ?thesis by (simp add: add_devices_def fold_resolve_device_extends)
qed

lemma resolve_device_named:
  "md_name d = Some name \<Longrightarrow> name \<in> set (device_names (resolve_device d nwb))"
  by (simp add: resolve_device_def device_names_def)

lemma extends_device_names:
  "extends a b \<Longrightarrow> set (device_names a) \<subseteq> set (device_names b)"
  by (auto simp: extends_def device_names_def)

lemma add_devices_nonempty: "devices nwb = [] \<Longrightarrow> devices (add_devices nwb dt metadata) \<noteq> []"
proof (cases "named_devices metadata dt")
  case Nil
  assume "devices nwb = []"
  with Nil show ?thesis by (simp add: add_devices_def)
next
  case (Cons d ds)
  then have "d \<in> set (named_devices metadata dt)" by simp
  then obtain name where n: "md_name d = Some name" by (auto simp: named_devices_def)
  have "extends (resolve_device d nwb) (fold resolve_device ds (resolve_device d nwb))"
    by (rule fold_resolve_device_extends)
  from extends_device_names [OF this] resolve_device_named [OF n]
  have "name \<in> set (device_names (add_devices nwb dt metadata))"
    by (auto simp: add_devices_def Cons)
  then show ?thesis by (auto simp: device_names_def)
qed

lemma add_devices_name_only:
  "dev_name \<notin> set (device_names nwb) \<Longrightarrow>
   add_devices nwb Ecephys (name_only dev_name) =
     nwb\<lparr>devices := devices nwb @
        [\<lparr>device_name = dev_name, device_description = None, device_manufacturer = None\<rparr>]\<rparr>"
  by (simp add: add_devices_def named_devices_def device_list_def name_only_def empty_metadata_def
        resolve_device_def)

lemma get_device_Inr:
  "get_device nwb name = Inr d \<Longrightarrow> d \<in> set (devices nwb) \<and> device_name d = name"
  by (auto simp: get_device_def find_Some_iff split: option.splits)

lemma get_device_present:
  assumes "name \<in> set (device_names nwb)"
  obtains d where "get_device nwb name = Inr d"
proof -
  from assms have "find (\<lambda>d. device_name d = name) (devices nwb) \<noteq> None"
    by (auto simp: find_None_iff device_names_def)
  then show thesis using that by (auto simp: get_device_def)
qed

lemma create_electrode_unfold:
  assumes "defaults \<noteq> []"
  shows "create_electrode defaults elec nwb =
     (if resolved_name defaults elec \<in> set (electrode_names nwb) then (nwb, [], None)
      else
        (case get_device
                (if resolved_device_name defaults elec \<in> set (device_names nwb) then nwb
                 else add_devices nwb Ecephys (name_only (resolved_device_name defaults elec)))
                (resolved_device_name defaults elec) of
           Inl e \<Rightarrow>
             ((if resolved_device_name defaults elec \<in> set (device_names nwb) then nwb
               else add_devices nwb Ecephys (name_only (resolved_device_name defaults elec))),
              (if resolved_device_name defaults elec \<in> set (device_names nwb) then []
               else [DeviceNotDetected (resolved_device_name defaults elec)]),
              Some e)
         | Inr dev \<Rightarrow>
             ((if resolved_device_name defaults elec \<in> set (device_names nwb) then nwb
               else add_devices nwb Ecephys (name_only (resolved_device_name defaults elec)))
              \<lparr>icephys_electrodes :=
                 icephys_electrodes
                   (if resolved_device_name defaults elec \<in> set (device_names nwb) then nwb
                    else add_devices nwb Ecephys (name_only (resolved_device_name defaults elec))) @
                 [\<lparr>electrode_name = resolved_name defaults elec,
                   electrode_description =
                     (case el_description elec of None \<Rightarrow> default_description (hd defaults)
                      | Some s \<Rightarrow> s),
                   electrode_device = dev\<rparr>]\<rparr>,
              (if resolved_device_name defaults elec \<in> set (device_names nwb) then []
               else [DeviceNotDetected (resolved_device_name defaults elec)]),
              None)))"
proof -
  from assms obtain d0 rest where d: "defaults = d0 # rest" by (cases defaults) auto
  show ?thesis
    unfolding d
    by (simp add: create_electrode_def resolved_name_def resolved_device_name_def name_only_def
          Let_def split: option.splits sum.splits)
qed

lemma create_electrode_registered:
  assumes "defaults \<noteq> []" and "resolved_name defaults elec \<in> set (electrode_names nwb)"
  shows "create_electrode defaults elec nwb = (nwb, [], None)"
  using assms by (simp add: create_electrode_unfold)

lemma create_electrode_new:
  assumes "defaults \<noteq> []" and "resolved_name defaults elec \<notin> set (electrode_names nwb)"
  defines "dn \<equiv> resolved_device_name defaults elec"
  defines "nwb1 \<equiv> (if dn \<in> set (device_names nwb) then nwb else add_devices nwb Ecephys (name_only dn))"
  obtains dev where "get_device nwb1 dn = Inr dev"
    and "create_electrode defaults elec nwb =
           (nwb1\<lparr>icephys_electrodes := icephys_electrodes nwb1 @
               [\<lparr>electrode_name = resolved_name defaults elec,
                 electrode_description =
                   (case el_description elec of None \<Rightarrow> default_description (hd defaults) | Some s \<Rightarrow> s),
                 electrode_device = dev\<rparr>]\<rparr>,
            (if dn \<in> set (device_names nwb) then [] else [DeviceNotDetected dn]), None)"
proof -
  have "dn \<in> set (device_names nwb1)"
    by (simp add: nwb1_def add_devices_name_only device_names_def)
  then obtain dev where dev: "get_device nwb1 dn = Inr dev" by (rule get_device_present)
  have "create_electrode defaults elec nwb =
           (nwb1\<lparr>icephys_electrodes := icephys_electrodes nwb1 @
               [\<lparr>electrode_name = resolved_name defaults elec,
                 electrode_description =
                   (case el_description elec of None \<Rightarrow> default_description (hd defaults) | Some s \<Rightarrow> s),
                 electrode_device = dev\<rparr>]\<rparr>,
            (if dn \<in> set (device_names nwb) then [] else [DeviceNotDetected dn]), None)"
    using assms(2) dev unfolding nwb1_def dn_def
    by (simp add: create_electrode_unfold [OF assms(1)])
  with dev show thesis by (rule that)
qed

lemma add_devices_electrodes [simp]:
  "icephys_electrodes (add_devices nwb dt metadata) = icephys_electrodes nwb"
proof -
  have r: "icephys_electrodes (resolve_device d n) = icephys_electrodes n" for d n
    by (simp add: resolve_device_def split: option.splits)
  have "icephys_electrodes (fold resolve_device ds n) = icephys_electrodes n" for ds n
    by (induction ds arbitrary: n) (simp_all add: r)
  then show ?thesis by (simp add: add_devices_def)
qed

lemma extends_add_electrode:
  assumes "electrode_name e \<notin> set (electrode_names nwb)" and "electrode_device e \<in> set (devices nwb)"
  shows "extends nwb (nwb\<lparr>icephys_electrodes := icephys_electrodes nwb @ [e]\<rparr>)"
  using assms by (simp add: extends_def device_names_def electrode_names_def)

lemma extends_electrode_names:
  "extends a b \<Longrightarrow> set (electrode_names a) \<subseteq> set (electrode_names b)"
  by (auto simp: extends_def electrode_names_def)

lemma create_electrode_ok:
  assumes "defaults \<noteq> []" and "create_electrode defaults elec nwb = (nwb', ws, err)"
  shows "extends nwb nwb'" and "err = None"
    and "resolved_name defaults elec \<in> set (electrode_names nwb')"
proof -
  have "extends nwb nwb' \<and> err = None \<and> resolved_name defaults elec \<in> set (electrode_names nwb')"
  proof (cases "resolved_name defaults elec \<in> set (electrode_names nwb)")
    case True
    then show ?thesis
      using assms(2) by (simp add: create_electrode_registered [OF assms(1)] extends_refl)
  next
    case False
    define dn where "dn = resolved_device_name defaults elec"
    define nwb1 where
      "nwb1 = (if dn \<in> set (device_names nwb) then nwb else add_devices nwb Ecephys (name_only dn))"
    from create_electrode_new [OF assms(1) False] obtain dev where
      dev: "get_device nwb1 dn = Inr dev" and
      res: "create_electrode defaults elec nwb =
           (nwb1\<lparr>icephys_electrodes := icephys_electrodes nwb1 @
               [\<lparr>electrode_name = resolved_name defaults elec,
                 electrode_description =
                   (case el_description elec of None \<Rightarrow> default_description (hd defaults) | Some s \<Rightarrow> s),
                 electrode_device = dev\<rparr>]\<rparr>,
            (if dn \<in> set (device_names nwb) then [] else [DeviceNotDetected dn]), None)"
      unfolding dn_def nwb1_def by blast
    have e1: "extends nwb nwb1"
      by (simp add: nwb1_def extends_refl add_devices_extends)
    have names: "electrode_names nwb1 = electrode_names nwb"
      by (simp add: nwb1_def electrode_names_def)
    have e2: "extends nwb1 nwb'"
      using assms(2) False get_device_Inr [OF dev] unfolding res
      by (auto intro!: extends_add_electrode simp: names)
    have "resolved_name defaults elec \<in> set (electrode_names nwb')"
      using assms(2) unfolding res by (auto simp: electrode_names_def)
    moreover have "err = None" using assms(2) unfolding res by simp
    ultimately show ?thesis using extends_trans [OF e1 e2] by simp
  qed
  then show "extends nwb nwb'" and "err = None"
    and "resolved_name defaults elec \<in> set (electrode_names nwb')"
    by simp_all
qed

lemma create_electrodes_ok:
  assumes "defaults \<noteq> []" and "create_electrodes defaults ms (nwb, ws, None) = (nwb', ws', err)"
  shows "extends nwb nwb'" and "err = None" and "\<exists>more. ws' = ws @ more"
    and "\<forall>m\<in>set ms. resolved_name defaults m \<in> set (electrode_names nwb')"
  using assms(2)
proof (induction ms arbitrary: nwb ws)
  case Nil
  {
    case 1 then show ?case by (simp add: extends_refl)
  next
    case 2 then show ?case by simp
  next
    case 3 then show ?case by simp
  next
    case 4 then show ?case by simp
  }
next
  case (Cons m ms)
  {
    case 1
    obtain n1 w1 e1 where step: "create_electrode defaults m nwb = (n1, w1, e1)"
      by (cases "create_electrode defaults m nwb") auto
    note ok = create_electrode_ok [OF assms(1) step]
    from 1 have rest: "create_electrodes defaults ms (n1, ws @ w1, None) = (nwb', ws', err)"
      by (simp add: step ok(2))
    show ?case using extends_trans [OF ok(1) Cons.IH(1) [OF rest]] .
  next
    case 2
    obtain n1 w1 e1 where step: "create_electrode defaults m nwb = (n1, w1, e1)"
      by (cases "create_electrode defaults m nwb") auto
    note ok = create_electrode_ok [OF assms(1) step]
    from 2 have rest: "create_electrodes defaults ms (n1, ws @ w1, None) = (nwb', ws', err)"
      by (simp add: step ok(2))
    show ?case using Cons.IH(2) [OF rest] .
  next
    case 3
    obtain n1 w1 e1 where step: "create_electrode defaults m nwb = (n1, w1, e1)"
      by (cases "create_electrode defaults m nwb") auto
    note ok = create_electrode_ok [OF assms(1) step]
    from 3 have rest: "create_electrodes defaults ms (n1, ws @ w1, None) = (nwb', ws', err)"
      by (simp add: step ok(2))
    show ?case using Cons.IH(3) [OF rest] by auto
  next
    case 4
    obtain n1 w1 e1 where step: "create_electrode defaults m nwb = (n1, w1, e1)"
      by (cases "create_electrode defaults m nwb") auto
    note ok = create_electrode_ok [OF assms(1) step]
    from 4 have rest: "create_electrodes defaults ms (n1, ws @ w1, None) = (nwb', ws', err)"
      by (simp add: step ok(2))
    from extends_electrode_names [OF Cons.IH(1) [OF rest]] ok(3)
    have "resolved_name defaults m \<in> set (electrode_names nwb')" by blast
    then show ?case using Cons.IH(4) [OF rest] by simp
  }
qed


lemma create_electrodes_no_defaults:
  "create_electrodes [] ms (nwb, ws, None) =
     (if ms = [] then (nwb, ws, None) else (nwb, ws, Some IndexError))"
  by (cases ms) (simp_all add: create_electrode_def)

lemma after_device_check_nonempty: "devices (after_device_check nwbfile metadata) \<noteq> []"
  by (simp add: after_device_check_def add_devices_nonempty)

lemma after_device_check_extends: "extends nwbfile (after_device_check nwbfile metadata)"
  by (simp add: after_device_check_def extends_refl add_devices_extends)

lemma make_defaults_eq: "devices nwb \<noteq> [] \<Longrightarrow> make_defaults nwb n = Inr (defaults_for nwb n)"
  by (cases "devices nwb") (simp_all add: make_defaults_def defaults_for_def)


lemma add_icephys_electrode_unfold:
  "add_icephys_electrode r nwbfile metadata =
     (let nwb1 = after_device_check nwbfile metadata;
          ws1 = device_check_warnings nwbfile;
          defaults = defaults_for nwb1 (get_number_of_electrodes r);
          items = work_items metadata defaults
      in if electrodes_entry_of metadata = Some Unsized then
           \<lparr>out_nwbfile = nwb1, out_metadata = metadata, out_warnings = ws1,
            out_error = Some TypeError\<rparr>
         else if \<not> list_all is_mapping items then
           \<lparr>out_nwbfile = nwb1, out_metadata = store_items metadata items, out_warnings = ws1,
            out_error = Some AssertionError\<rparr>
         else
           (case create_electrodes defaults (mappings items) (nwb1, ws1, None) of
              (nwb2, ws2, err) \<Rightarrow>
                \<lparr>out_nwbfile = nwb2, out_metadata = store_items metadata items,
                 out_warnings = ws2, out_error = err\<rparr>))"
proof -
  have d: "make_defaults (after_device_check nwbfile metadata) (get_number_of_electrodes r) =
           Inr (defaults_for (after_device_check nwbfile metadata) (get_number_of_electrodes r))"
    by (rule make_defaults_eq [OF after_device_check_nonempty])
  have a: "fst (if devices nwbfile = [] then (add_devices nwbfile Ecephys metadata, [NoDevicesFound])
                else (nwbfile, [])) = after_device_check nwbfile metadata"
    by (simp add: after_device_check_def)
  have w: "snd (if devices nwbfile = [] then (add_devices nwbfile Ecephys metadata, [NoDevicesFound])
                else (nwbfile, [])) = device_check_warnings nwbfile"
    by (simp add: device_check_warnings_def)
  show ?thesis
    unfolding add_icephys_electrode_def Let_def a w d
    by (cases metadata; cases "electrodes_entry_of metadata")
       (auto simp: electrodes_entry_of_def work_items_def store_items_def empty_metadata_def
          split: option.splits electrodes_entry.splits prod.splits)
qed

lemma create_electrodes_extends:
  assumes "create_electrodes defaults ms (nwb, ws, None) = (nwb', ws', err)"
  shows "extends nwb nwb'" and "\<exists>more. ws' = ws @ more"
proof -
  have "extends nwb nwb' \<and> (\<exists>more. ws' = ws @ more)"
  proof (cases "defaults = []")
    case True
    then show ?thesis
      using assms by (auto simp: create_electrodes_no_defaults extends_refl split: if_splits)
  next
    case False
    from create_electrodes_ok(1,3) [OF False assms] show ?thesis by simp
  qed
  then show "extends nwb nwb'" and "\<exists>more. ws' = ws @ more" by simp_all
qed

lemma add_icephys_electrode_extends:
  "extends (after_device_check nwbfile metadata) (out_nwbfile (add_icephys_electrode r nwbfile metadata))"
  "\<exists>more. out_warnings (add_icephys_electrode r nwbfile metadata) =
            device_check_warnings nwbfile @ more"
proof -
  define nwb1 where "nwb1 = after_device_check nwbfile metadata"
  define ws1 where "ws1 = device_check_warnings nwbfile"
  define defaults where "defaults = defaults_for nwb1 (get_number_of_electrodes r)"
  define items where "items = work_items metadata defaults"
  obtain nwb2 ws2 err where
    run: "create_electrodes defaults (mappings items) (nwb1, ws1, None) = (nwb2, ws2, err)"
    by (cases "create_electrodes defaults (mappings items) (nwb1, ws1, None)") auto
  note ext = create_electrodes_extends [OF run]
  have "extends nwb1 (out_nwbfile (add_icephys_electrode r nwbfile metadata)) \<and>
        (\<exists>more. out_warnings (add_icephys_electrode r nwbfile metadata) = ws1 @ more)"
    using ext
    by (simp add: add_icephys_electrode_unfold Let_def nwb1_def [symmetric] ws1_def [symmetric]
          defaults_def [symmetric] items_def [symmetric] run extends_refl)
  then show
    "extends (after_device_check nwbfile metadata) (out_nwbfile (add_icephys_electrode r nwbfile metadata))"
    "\<exists>more. out_warnings (add_icephys_electrode r nwbfile metadata) =
            device_check_warnings nwbfile @ more"
    by (simp_all add: nwb1_def ws1_def)
qed

lemma after_device_check_default:
  assumes "devices nwbfile = []" and "named_devices metadata Ecephys = []"
  shows "devices (after_device_check nwbfile metadata) = [default_device]"
  using assms by (simp add: after_device_check_def add_devices_def)

text \<open>
  C4.  When \<open>add_icephys_electrode\<close> is called on a container without devices and the
  metadata names no device, the first device of the resulting container is the default
  device, with name \<open>Device\<close> and description \<open>no description\<close>, and the first warning
  of the call reports that no devices were found.
\<close>

theorem default_device_created:
  assumes "devices nwbfile = []" and "named_devices metadata Ecephys = []"
  shows "take 1 (devices (out_nwbfile (add_icephys_electrode r nwbfile metadata))) =
           [\<lparr>device_name = ''Device'', device_description = Some ''no description'',
             device_manufacturer = None\<rparr>] \<and>
         take 1 (out_warnings (add_icephys_electrode r nwbfile metadata)) = [NoDevicesFound]"
proof -
  from add_icephys_electrode_extends(1) [of nwbfile metadata r]
  obtain ds where "devices (out_nwbfile (add_icephys_electrode r nwbfile metadata)) =
                   devices (after_device_check nwbfile metadata) @ ds"
    unfolding extends_def by blast
  then have "take 1 (devices (out_nwbfile (add_icephys_electrode r nwbfile metadata))) = [default_device]"
    by (simp add: after_device_check_default [OF assms])
  moreover from add_icephys_electrode_extends(2) [of r nwbfile metadata] assms(1)
  have "take 1 (out_warnings (add_icephys_electrode r nwbfile metadata)) = [NoDevicesFound]"
    by (auto simp: device_check_warnings_def)
  ultimately show ?thesis by (simp add: default_device_def)
qed


text \<open>
  C9.  Every electrode that \<open>add_icephys_electrode\<close> adds to the container is linked to
  a device of the resulting container, and when the call returns without raising the
  resulting container has at least one device.
\<close>

theorem electrode_device_integrity:
  "(\<forall>e\<in>set (drop (length (icephys_electrodes nwbfile))
               (icephys_electrodes (out_nwbfile (add_icephys_electrode r nwbfile metadata)))).
      electrode_device e \<in> set (devices (out_nwbfile (add_icephys_electrode r nwbfile metadata)))) \<and>
   (out_error (add_icephys_electrode r nwbfile metadata) = None \<longrightarrow>
      devices (out_nwbfile (add_icephys_electrode r nwbfile metadata)) \<noteq> [])"
proof -
  have ext: "extends nwbfile (out_nwbfile (add_icephys_electrode r nwbfile metadata))"
    by (rule extends_trans [OF after_device_check_extends add_icephys_electrode_extends(1)])
  from add_icephys_electrode_extends(1) [of nwbfile metadata r]
  have "devices (out_nwbfile (add_icephys_electrode r nwbfile metadata)) \<noteq> []"
    using after_device_check_nonempty [of nwbfile metadata] by (auto simp: extends_def)
  with ext show ?thesis by (auto simp: extends_def)
qed













lemma str_nat_0: "str_nat 0 = ''0''"
  by (simp add: str_nat_def digits_of.simps)

lemmas eval_defs =
  add_icephys_electrode_def add_devices_def named_devices_def device_list_def make_defaults_def
  create_electrode_def get_device_def resolve_device_def device_names_def electrode_names_def
  as_item_def is_mapping_def mappings_def empty_metadata_def default_device_def
  get_number_of_electrodes_def one_channel_def example_reader_def str_nat_0
  empty_nwbfile_def device_only_nwbfile_def amplifier_def patch_1_def patched_nwbfile_def
  electrodes_metadata_def descriptor_def Let_def

lemma first_call_on_empty:
  "add_icephys_electrode one_channel empty_nwbfile None =
     \<lparr>out_nwbfile = \<lparr>devices = [default_device],
                      icephys_electrodes =
                        [\<lparr>electrode_name = ''icephys_electrode_0'',
                          electrode_description = ''no description'',
                          electrode_device = default_device\<rparr>],
                      intracellular_recordings = []\<rparr>,
      out_metadata = None, out_warnings = [NoDevicesFound], out_error = None\<rparr>"
  by (simp add: eval_defs)

lemma call_with_absent_device:
  "add_icephys_electrode one_channel device_only_nwbfile
       (electrodes_metadata [descriptor ''patch_1'' ''Amplifier'']) =
     \<lparr>out_nwbfile = patched_nwbfile,
      out_metadata = electrodes_metadata [descriptor ''patch_1'' ''Amplifier''],
      out_warnings = [DeviceNotDetected ''Amplifier''], out_error = None\<rparr>"
  by (simp add: eval_defs)




subsection \<open>The properties on example inputs\<close>

theorem default_device_created_witness:
  "devices empty_nwbfile = [] \<and> named_devices None Ecephys = [] \<and>
   take 1 (devices (out_nwbfile (add_icephys_electrode one_channel empty_nwbfile None))) =
     [\<lparr>device_name = ''Device'', device_description = Some ''no description'',
       device_manufacturer = None\<rparr>] \<and>
   take 1 (out_warnings (add_icephys_electrode one_channel empty_nwbfile None)) = [NoDevicesFound]"
proof -
  have h1: "devices empty_nwbfile = []" by (simp add: empty_nwbfile_def)
  have h2: "named_devices None Ecephys = []" by (simp add: named_devices_def device_list_def)
  from default_device_created [OF h1 h2, of one_channel] h1 h2 show ?thesis by simp
qed







theorem electrode_device_integrity_witness:
  "drop (length (icephys_electrodes device_only_nwbfile))
        (icephys_electrodes (out_nwbfile (add_icephys_electrode one_channel device_only_nwbfile
           (electrodes_metadata [descriptor ''patch_1'' ''Amplifier''])))) = [patch_1] \<and>
   electrode_device patch_1 \<in>
     set (devices (out_nwbfile (add_icephys_electrode one_channel device_only_nwbfile
           (electrodes_metadata [descriptor ''patch_1'' ''Amplifier''])))) \<and>
   out_error (add_icephys_electrode one_channel device_only_nwbfile
           (electrodes_metadata [descriptor ''patch_1'' ''Amplifier''])) = None \<and>
   devices (out_nwbfile (add_icephys_electrode one_channel device_only_nwbfile
           (electrodes_metadata [descriptor ''patch_1'' ''Amplifier'']))) \<noteq> []"
proof -
  let ?o = "add_icephys_electrode one_channel device_only_nwbfile
              (electrodes_metadata [descriptor ''patch_1'' ''Amplifier''])"
  have new: "drop (length (icephys_electrodes device_only_nwbfile))
               (icephys_electrodes (out_nwbfile ?o)) = [patch_1]"
    by (simp add: call_with_absent_device) (simp add: patched_nwbfile_def device_only_nwbfile_def)
  have ok: "out_error ?o = None" by (simp add: call_with_absent_device)
  note inst = electrode_device_integrity [of device_only_nwbfile one_channel
      "electrodes_metadata [descriptor ''patch_1'' ''Amplifier'']"]
  from inst new have "electrode_device patch_1 \<in> set (devices (out_nwbfile ?o))" by simp
  moreover from inst ok have "devices (out_nwbfile ?o) \<noteq> []" by blast
  ultimately show ?thesis using new ok by simp
qed

section \<open>The recording routine\<close>

lemma protocol_data_Inr:
  "protocol_data traces si ei = Inr data \<Longrightarrow> data = traces ! si ! ei"
  by (simp add: protocol_data_def split: if_splits)

lemma record_electrodes_rows:
  assumes "record_electrodes r si xs nwb = (nwb', err)"
  shows "\<exists>k\<le>length xs.
           nwb' = nwb\<lparr>intracellular_recordings :=
                     intracellular_recordings nwb @ map (recording_row r si) (take k xs)\<rparr> \<and>
           (err = None \<longrightarrow> k = length xs)"
  using assms
proof (induction xs arbitrary: nwb)
  case Nil
  then show ?case by simp
next
  case (Cons x xs)
  obtain ei electrode where x: "x = (ei, electrode)" by (cases x)
  show ?case
  proof (cases "protocol_data (raw_protocol_traces r) si ei")
    case (Inl e)
    with Cons.prems x have "nwb' = nwb" by (simp add: Let_def)
    moreover from Inl Cons.prems x have "err \<noteq> None" by (auto simp: Let_def)
    ultimately show ?thesis by (intro exI [of _ 0]) simp
  next
    case (Inr data)
    define nwb1 where "nwb1 = nwb\<lparr>intracellular_recordings := intracellular_recordings nwb @
               [recording_row r si x]\<rparr>"
    from Inr Cons.prems x protocol_data_Inr [OF Inr]
    have "record_electrodes r si xs nwb1 = (nwb', err)"
      by (simp add: Let_def nwb1_def recording_row_def)
    from Cons.IH [OF this] obtain k where k: "k \<le> length xs"
      "nwb' = nwb1\<lparr>intracellular_recordings :=
                     intracellular_recordings nwb1 @ map (recording_row r si) (take k xs)\<rparr>"
      "err = None \<longrightarrow> k = length xs" by blast
    show ?thesis
      using k by (intro exI [of _ "Suc k"]) (simp add: nwb1_def)
  qed
qed

lemma record_segments_rows:
  assumes "record_segments r sis nwb = (nwb', err)"
  shows "\<exists>k\<le>length (concat (map (segment_rows r (icephys_electrodes nwb)) sis)).
           nwb' = nwb\<lparr>intracellular_recordings :=
                     intracellular_recordings nwb @
                     take k (concat (map (segment_rows r (icephys_electrodes nwb)) sis))\<rparr> \<and>
           (err = None \<longrightarrow> k = length (concat (map (segment_rows r (icephys_electrodes nwb)) sis)))"
  using assms
proof (induction sis arbitrary: nwb)
  case Nil
  then show ?case by simp
next
  case (Cons si sis)
  define es where "es = icephys_electrodes nwb"
  obtain n1 e1 where inner: "record_electrodes r si (enumerate 0 es) nwb = (n1, e1)"
    by (cases "record_electrodes r si (enumerate 0 es) nwb") auto
  from record_electrodes_rows [OF inner] obtain k1 where k1: "k1 \<le> length (enumerate 0 es)"
    "n1 = nwb\<lparr>intracellular_recordings :=
                intracellular_recordings nwb @ map (recording_row r si) (take k1 (enumerate 0 es))\<rparr>"
    "e1 = None \<longrightarrow> k1 = length (enumerate 0 es)" by blast
  have seg: "map (recording_row r si) (take k1 (enumerate 0 es)) = take k1 (segment_rows r es si)"
    by (simp add: segment_rows_def take_map)
  have len: "length (segment_rows r es si) = length (enumerate 0 es)"
    by (simp add: segment_rows_def)
  show ?case
  proof (cases e1)
    case (Some e)
    with Cons.prems inner have "nwb' = n1" "err = Some e" by (simp_all add: es_def)
    then show ?thesis
      using k1 seg len unfolding es_def [symmetric]
      by (intro exI [of _ k1]) simp
  next
    case None
    with Cons.prems inner have rest: "record_segments r sis n1 = (nwb', err)" by (simp add: es_def)
    from None k1 have full: "k1 = length (segment_rows r es si)" by (simp add: len)
    have es1: "icephys_electrodes n1 = es" by (simp add: k1(2) es_def)
    from Cons.IH [OF rest] obtain k2 where k2:
      "k2 \<le> length (concat (map (segment_rows r es) sis))"
      "nwb' = n1\<lparr>intracellular_recordings :=
                     intracellular_recordings n1 @ take k2 (concat (map (segment_rows r es) sis))\<rparr>"
      "err = None \<longrightarrow> k2 = length (concat (map (segment_rows r es) sis))"
      unfolding es1 by blast
    show ?thesis
      unfolding es_def [symmetric]
      using k2 seg full
      by (intro exI [of _ "length (segment_rows r es si) + k2"]) (simp add: k1(2))
  qed
qed

lemma segment_rows_nth:
  "segment_rows r es si = map (\<lambda>ei. recording_row r si (ei, es ! ei)) [0..<length es]"
  by (rule nth_equalityI) (simp_all add: segment_rows_def nth_enumerate_eq)

lemma all_rows_eq:
  "all_rows r es n =
     map (\<lambda>k. recording_row r (k div length es) (k mod length es, es ! (k mod length es)))
         [0..<n * length es]"
proof -
  define m where "m = length es"
  define g where "g = (\<lambda>k. recording_row r (k div m) (k mod m, es ! (k mod m)))"
  have "segment_rows r es si = map (\<lambda>ei. g (si * m + ei)) [0..<m]" for si
    unfolding segment_rows_nth m_def [symmetric] by (rule map_cong) (simp_all add: g_def)
  then have seg: "segment_rows r es = (\<lambda>si. map (\<lambda>ei. g (si * m + ei)) [0..<m])"
    by (intro ext)
  have "all_rows r es n = concat (map (\<lambda>si. map (\<lambda>ei. g (si * m + ei)) [0..<m]) [0..<n])"
    by (simp only: all_rows_def seg)
  also have "\<dots> = map g [0..<n * m]" by (rule concat_blocks)
  finally show ?thesis unfolding g_def m_def .
qed

lemma all_rows_nth:
  assumes "si < n" and "ei < length es"
  shows "all_rows r es n ! (si * length es + ei) = recording_row r si (ei, es ! ei)"
    and "si * length es + ei < length (all_rows r es n)"
proof -
  have "si * length es + ei < n * length es"
  proof -
    have "si * length es + ei < si * length es + length es" using assms(2) by simp
    also have "\<dots> = Suc si * length es" by simp
    also have "\<dots> \<le> n * length es" using assms(1) by (intro mult_le_mono1) simp
    finally show ?thesis .
  qed
  moreover have "(si * length es + ei) div length es = si" "(si * length es + ei) mod length es = ei"
  proof -
    have "length es \<noteq> 0" using assms(2) by auto
    then show "(si * length es + ei) div length es = si" using assms(2) by simp
    show "(si * length es + ei) mod length es = ei" using assms(2) by simp
  qed
  ultimately show "all_rows r es n ! (si * length es + ei) = recording_row r si (ei, es ! ei)"
    and "si * length es + ei < length (all_rows r es n)"
    by (simp_all add: all_rows_eq)
qed

lemma add_icephys_recording_rows:
  assumes "add_icephys_recording r nwbfile = (nwb', err)"
  shows "\<exists>k\<le>length (all_rows r (icephys_electrodes nwbfile) (segment_count r)).
           nwb' = nwbfile\<lparr>intracellular_recordings :=
                     intracellular_recordings nwbfile @
                     take k (all_rows r (icephys_electrodes nwbfile) (segment_count r))\<rparr> \<and>
           (err = None \<longrightarrow> k = length (all_rows r (icephys_electrodes nwbfile) (segment_count r)))"
proof (cases "get_number_of_segments r 0")
  case (Inl e)
  with assms have "nwb' = nwbfile" "err \<noteq> None" by (auto simp: add_icephys_recording_def)
  then show ?thesis by (intro exI [of _ 0]) auto
next
  case (Inr n)
  then have sc: "segment_count r = nat n" by (simp add: segment_count_def)
  show ?thesis
  proof (cases "length (raw_protocol_traces r) \<noteq> 0 \<and> int (length (raw_protocol_traces r)) \<noteq> n")
    case True
    with assms Inr have "nwb' = nwbfile" "err \<noteq> None"
      by (auto simp: add_icephys_recording_def Let_def)
    then show ?thesis by (intro exI [of _ 0]) auto
  next
    case False
    with assms Inr have "record_segments r [0..<nat n] nwbfile = (nwb', err)"
      by (auto simp: add_icephys_recording_def Let_def)
    from record_segments_rows [OF this] show ?thesis
      by (simp add: all_rows_def sc)
  qed
qed

text \<open>
  C10.  The rows that \<open>add_icephys_recording\<close> appends are, in order, the rows of
  \<open>all_rows\<close>, all of them when the call returns without raising.  In the row of segment
  \<open>si\<close> and electrode \<open>ei\<close> the stimulus series has the starting time 123.6, whatever
  the reader reports, the response series has the starting time that the reader
  reports for segment \<open>si\<close>, and both belong to the \<open>ei\<close>-th electrode of the container.
\<close>

theorem stimulus_time_fixed_response_time_reported:
  assumes "add_icephys_recording r nwbfile = (nwb', err)"
  shows "drop (length (intracellular_recordings nwbfile)) (intracellular_recordings nwb') =
           take (length (intracellular_recordings nwb') - length (intracellular_recordings nwbfile))
                (all_rows r (icephys_electrodes nwbfile) (segment_count r)) \<and>
         (err = None \<longrightarrow>
            intracellular_recordings nwb' =
              intracellular_recordings nwbfile @
              all_rows r (icephys_electrodes nwbfile) (segment_count r)) \<and>
         (\<forall>si<segment_count r. \<forall>ei<length (icephys_electrodes nwbfile).
            series_starting_time (recording_stimulus
               (all_rows r (icephys_electrodes nwbfile) (segment_count r) !
                  (si * length (icephys_electrodes nwbfile) + ei))) = 123.6 \<and>
            series_starting_time (recording_response
               (all_rows r (icephys_electrodes nwbfile) (segment_count r) !
                  (si * length (icephys_electrodes nwbfile) + ei))) = signal_t_start r si \<and>
            recording_electrode
               (all_rows r (icephys_electrodes nwbfile) (segment_count r) !
                  (si * length (icephys_electrodes nwbfile) + ei)) = icephys_electrodes nwbfile ! ei)"
proof -
  from add_icephys_recording_rows [OF assms] obtain k where
    k: "k \<le> length (all_rows r (icephys_electrodes nwbfile) (segment_count r))"
       "nwb' = nwbfile\<lparr>intracellular_recordings :=
                     intracellular_recordings nwbfile @
                     take k (all_rows r (icephys_electrodes nwbfile) (segment_count r))\<rparr>"
       "err = None \<longrightarrow> k = length (all_rows r (icephys_electrodes nwbfile) (segment_count r))"
    by blast
  have a: "drop (length (intracellular_recordings nwbfile)) (intracellular_recordings nwb') =
           take (length (intracellular_recordings nwb') - length (intracellular_recordings nwbfile))
                (all_rows r (icephys_electrodes nwbfile) (segment_count r))"
    using k(1) by (simp add: k(2) min_def)
  have b: "err = None \<longrightarrow>
            intracellular_recordings nwb' =
              intracellular_recordings nwbfile @
              all_rows r (icephys_electrodes nwbfile) (segment_count r)"
    using k(3) by (simp add: k(2))
  have c: "series_starting_time (recording_stimulus
               (all_rows r (icephys_electrodes nwbfile) (segment_count r) !
                  (si * length (icephys_electrodes nwbfile) + ei))) = 123.6 \<and>
            series_starting_time (recording_response
               (all_rows r (icephys_electrodes nwbfile) (segment_count r) !
                  (si * length (icephys_electrodes nwbfile) + ei))) = signal_t_start r si \<and>
            recording_electrode
               (all_rows r (icephys_electrodes nwbfile) (segment_count r) !
                  (si * length (icephys_electrodes nwbfile) + ei)) = icephys_electrodes nwbfile ! ei"
    if "si < segment_count r" "ei < length (icephys_electrodes nwbfile)" for si ei
    by (simp add: all_rows_nth(1) [OF that] recording_row_def stimulus_series_def response_series_def)
  from a b c show ?thesis by blast
qed


lemma two_sweeps_run:
  "add_icephys_recording two_sweeps patched_nwbfile =
     (patched_nwbfile\<lparr>intracellular_recordings :=
        [recording_row two_sweeps 0 (0, patch_1), recording_row two_sweeps 1 (0, patch_1)]\<rparr>,
      None)"
  by (simp add: add_icephys_recording_def get_number_of_segments_def two_sweeps_def
        example_neo_reader_def Let_def patched_nwbfile_def protocol_data_def recording_row_def
        eval_nat_numeral)

theorem stimulus_time_fixed_response_time_reported_witness:
  "add_icephys_recording two_sweeps patched_nwbfile =
     (patched_nwbfile\<lparr>intracellular_recordings :=
        [recording_row two_sweeps 0 (0, patch_1), recording_row two_sweeps 1 (0, patch_1)]\<rparr>,
      None) \<and>
   segment_count two_sweeps = 2 \<and> length (icephys_electrodes patched_nwbfile) = 1 \<and>
   all_rows two_sweeps (icephys_electrodes patched_nwbfile) (segment_count two_sweeps) =
     [recording_row two_sweeps 0 (0, patch_1), recording_row two_sweeps 1 (0, patch_1)] \<and>
   map (series_starting_time \<circ> recording_stimulus)
     [recording_row two_sweeps 0 (0, patch_1), recording_row two_sweeps 1 (0, patch_1)] =
     [123.6, 123.6] \<and>
   map (series_starting_time \<circ> recording_response)
     [recording_row two_sweeps 0 (0, patch_1), recording_row two_sweeps 1 (0, patch_1)] = [0, 2]"
proof -
  note h = two_sweeps_run
  have sc: "segment_count two_sweeps = 2"
    by (simp add: segment_count_def get_number_of_segments_def two_sweeps_def example_neo_reader_def)
  have ne: "length (icephys_electrodes patched_nwbfile) = 1" by (simp add: patched_nwbfile_def)
  note inst = stimulus_time_fixed_response_time_reported [OF h]
  from inst have "intracellular_recordings
          (patched_nwbfile\<lparr>intracellular_recordings :=
             [recording_row two_sweeps 0 (0, patch_1), recording_row two_sweeps 1 (0, patch_1)]\<rparr>) =
        intracellular_recordings patched_nwbfile @
        all_rows two_sweeps (icephys_electrodes patched_nwbfile) (segment_count two_sweeps)"
    by blast
  moreover have "intracellular_recordings patched_nwbfile = []" by (simp add: patched_nwbfile_def)
  ultimately have rows: "all_rows two_sweeps (icephys_electrodes patched_nwbfile) (segment_count two_sweeps) =
     [recording_row two_sweeps 0 (0, patch_1), recording_row two_sweeps 1 (0, patch_1)]"
    by simp
  from inst have "\<forall>si<2. series_starting_time (recording_stimulus
               (all_rows two_sweeps (icephys_electrodes patched_nwbfile) (segment_count two_sweeps) ! si)) =
             123.6 \<and>
            series_starting_time (recording_response
               (all_rows two_sweeps (icephys_electrodes patched_nwbfile) (segment_count two_sweeps) ! si)) =
             signal_t_start two_sweeps si"
    by (simp add: sc ne)
  then have every: "\<forall>si<2. series_starting_time (recording_stimulus
               ([recording_row two_sweeps 0 (0, patch_1), recording_row two_sweeps 1 (0, patch_1)] ! si)) =
             123.6 \<and>
            series_starting_time (recording_response
               ([recording_row two_sweeps 0 (0, patch_1), recording_row two_sweeps 1 (0, patch_1)] ! si)) =
             signal_t_start two_sweeps si"
    by (simp only: rows)
  have t0: "signal_t_start two_sweeps 0 = 0" and t1: "signal_t_start two_sweeps 1 = 2"
    by (simp_all add: two_sweeps_def example_neo_reader_def)
  from every [rule_format, of 0] every [rule_format, of 1] t0 t1
  have "series_starting_time (recording_stimulus (recording_row two_sweeps 0 (0, patch_1))) = 123.6"
    "series_starting_time (recording_stimulus (recording_row two_sweeps 1 (0, patch_1))) = 123.6"
    "series_starting_time (recording_response (recording_row two_sweeps 0 (0, patch_1))) = 0"
    "series_starting_time (recording_response (recording_row two_sweeps 1 (0, patch_1))) = 2"
    by simp_all
  then show ?thesis using h sc ne rows by simp
qed



end
